theory Spec2Isabelle
  imports Main "HOL-Library.Word"
begin

section \<open>JavaScript values\<close>

text \<open>
  A JavaScript string is a sequence of 16-bit code units. \<open>ascii\<close> turns a literal of
  the theory into one.
\<close>

type_synonym jstring = "16 word list"

definition ascii :: "string \<Rightarrow> jstring" where
  "ascii s = map (\<lambda>c. of_nat (of_char c)) s"

text \<open>
  The values both scripts handle are the results of \<open>JSON.parse\<close>, the value
  \<open>undefined\<close> that a missing property reads as, and object literals built from them.
  An object is the list of its own properties in enumeration order. Numbers are the
  integers that a double holds exactly (up to \<open>2^53 - 1\<close> in magnitude); other number
  literals are outside the model and the parser reports them as such.
\<close>

datatype jsv =
    JUndefined
  | JNull
  | JBool bool
  | JNum int
  | JStr jstring
  | JArr "jsv list"
  | JObj "(jstring \<times> jsv) list"

text \<open>
  The exceptions and rejections of the two scripts. \<open>Unsettled\<close> is not an exception: it
  stands for an awaited promise that never settles. Nothing after such an \<open>await\<close> runs,
  so it travels up the callers as an exception does, but no \<open>catch\<close> block runs for it:
  the process ends with exit status 0 once nothing is left to wait for.
\<close>

datatype error =
    TypeError
  | SyntaxError
  | HttpError nat jstring         \<comment> \<open>\<open>HTTP Error: <status> <body>\<close>\<close>
  | GraphQLError jstring          \<comment> \<open>\<open>GraphQL Error: <message>\<close>\<close>
  | ParseResponseError            \<comment> \<open>\<open>Failed to parse response: ...\<close>\<close>
  | RequestError jstring          \<comment> \<open>\<open>Request error: ...\<close>\<close>
  | InvalidUrl                    \<comment> \<open>\<open>new URL\<close> throws\<close>
  | InvalidHeader                 \<comment> \<open>the request module throws on the \<open>Authorization\<close> header\<close>
  | FsError                       \<comment> \<open>a file system call throws\<close>
  | MissingData jstring           \<comment> \<open>\<open>Failed to retrieve ...\<close>\<close>
  | Unmodelled                    \<comment> \<open>a number literal outside the model\<close>
  | Unsettled                     \<comment> \<open>the awaited promise never settles\<close>

fun truthy :: "jsv \<Rightarrow> bool" where
  "truthy JUndefined = False"
| "truthy JNull = False"
| "truthy (JBool b) = b"
| "truthy (JNum n) = (n \<noteq> 0)"
| "truthy (JStr s) = (s \<noteq> [])"
| "truthy (JArr _) = True"
| "truthy (JObj _) = True"

text \<open>
  \<open>a === b\<close>. Two objects or arrays are equal only when they are the same object; the
  operands compared by the scripts come from two different parses, so they never are.
\<close>

fun strict_eq :: "jsv \<Rightarrow> jsv \<Rightarrow> bool" where
  "strict_eq JUndefined JUndefined = True"
| "strict_eq JNull JNull = True"
| "strict_eq (JBool a) (JBool b) = (a = b)"
| "strict_eq (JNum a) (JNum b) = (a = b)"
| "strict_eq (JStr a) (JStr b) = (a = b)"
| "strict_eq _ _ = False"

text \<open>
  \<open>v.name\<close> for the property names the scripts read: none of them is inherited from a
  prototype except \<open>length\<close> of arrays and strings. Reading a property of \<open>null\<close> or
  \<open>undefined\<close> throws.
\<close>

fun own_prop :: "(jstring \<times> jsv) list \<Rightarrow> jstring \<Rightarrow> jsv" where
  "own_prop kvs k = (case map_of kvs k of None \<Rightarrow> JUndefined | Some v \<Rightarrow> v)"

fun get_prop :: "jsv \<Rightarrow> jstring \<Rightarrow> error + jsv" where
  "get_prop JUndefined k = Inl TypeError"
| "get_prop JNull k = Inl TypeError"
| "get_prop (JObj kvs) k = Inr (own_prop kvs k)"
| "get_prop (JArr xs) k = Inr (if k = ascii ''length'' then JNum (int (length xs)) else JUndefined)"
| "get_prop (JStr s) k = Inr (if k = ascii ''length'' then JNum (int (length s)) else JUndefined)"
| "get_prop _ k = Inr JUndefined"

text \<open>\<open>v?.name\<close>: \<open>undefined\<close> when \<open>v\<close> is \<open>null\<close> or \<open>undefined\<close>.\<close>

fun opt_prop :: "jsv \<Rightarrow> jstring \<Rightarrow> jsv" where
  "opt_prop v k = (case get_prop v k of Inl _ \<Rightarrow> JUndefined | Inr x \<Rightarrow> x)"

text \<open>\<open>v[0]\<close> on a value that is neither \<open>null\<close> nor \<open>undefined\<close>.\<close>

fun index0 :: "jsv \<Rightarrow> error + jsv" where
  "index0 JUndefined = Inl TypeError"
| "index0 JNull = Inl TypeError"
| "index0 (JArr xs) = Inr (case xs of [] \<Rightarrow> JUndefined | x # _ \<Rightarrow> x)"
| "index0 (JStr s) = Inr (case s of [] \<Rightarrow> JUndefined | c # _ \<Rightarrow> JStr [c])"
| "index0 (JObj kvs) = Inr (own_prop kvs (ascii ''0''))"
| "index0 _ = Inr JUndefined"

subsection \<open>Conversion to a string and to a number\<close>

function digits_of :: "int \<Rightarrow> jstring" where
  "digits_of n =
     (if n < 10 then [of_int (48 + n)]
      else digits_of (n div 10) @ [of_int (48 + n mod 10)])"
  by pat_completeness auto
termination
  by (relation "measure nat") auto

declare digits_of.simps [simp del]

definition decimal :: "int \<Rightarrow> jstring" where
  "decimal i = (if i < 0 then ascii ''-'' @ digits_of (- i) else digits_of i)"

fun join :: "jstring \<Rightarrow> jstring list \<Rightarrow> jstring" where
  "join sep [] = []"
| "join sep [x] = x"
| "join sep (x # y # ys) = x @ sep @ join sep (y # ys)"

text \<open>
  \<open>ToString\<close>, as a template literal applies it. A plain object prints as
  \<open>[object Object]\<close>; an own property \<open>toString\<close> (never callable in parsed JSON) makes
  the conversion throw. An array joins its elements, \<open>null\<close> and \<open>undefined\<close> as the
  empty string.
\<close>

fun to_string :: "jsv \<Rightarrow> error + jstring"
  and to_string_elems :: "jsv list \<Rightarrow> error + jstring list" where
  "to_string JUndefined = Inr (ascii ''undefined'')"
| "to_string JNull = Inr (ascii ''null'')"
| "to_string (JBool b) = Inr (if b then ascii ''true'' else ascii ''false'')"
| "to_string (JNum n) = Inr (decimal n)"
| "to_string (JStr s) = Inr s"
| "to_string (JArr xs) =
     (case to_string_elems xs of Inl e \<Rightarrow> Inl e | Inr ss \<Rightarrow> Inr (join (ascii '','') ss))"
| "to_string (JObj kvs) =
     (if ascii ''toString'' \<in> fst ` set kvs then Inl TypeError
      else Inr (ascii ''[object Object]''))"
| "to_string_elems [] = Inr []"
| "to_string_elems (x # xs) =
     (case (if x = JUndefined \<or> x = JNull then Inr [] else to_string x) of
        Inl e \<Rightarrow> Inl e
      | Inr s \<Rightarrow> (case to_string_elems xs of Inl e \<Rightarrow> Inl e | Inr ss \<Rightarrow> Inr (s # ss)))"

text \<open>
  \<open>v > 0\<close>. The conversion of a string to a number is floating point and is left to
  the platform: \<open>str_pos s\<close> says whether the number that \<open>s\<close> converts to is above
  zero.
\<close>

fun gt_zero :: "(jstring \<Rightarrow> bool) \<Rightarrow> jsv \<Rightarrow> error + bool" where
  "gt_zero str_pos JUndefined = Inr False"
| "gt_zero str_pos JNull = Inr False"
| "gt_zero str_pos (JBool b) = Inr b"
| "gt_zero str_pos (JNum n) = Inr (0 < n)"
| "gt_zero str_pos (JStr s) = Inr (str_pos s)"
| "gt_zero str_pos v = (case to_string v of Inl e \<Rightarrow> Inl e | Inr s \<Rightarrow> Inr (str_pos s))"

section \<open>JSON.parse\<close>

datatype 'a parsed = POk 'a | PSyntaxError | PUnsupported

definition is_ws :: "16 word \<Rightarrow> bool" where
  "is_ws c = (c = 0x20 \<or> c = 0x09 \<or> c = 0x0A \<or> c = 0x0D)"

definition skip_ws :: "jstring \<Rightarrow> jstring" where
  "skip_ws s = dropWhile is_ws s"

definition is_digit :: "16 word \<Rightarrow> bool" where
  "is_digit c = (0x30 \<le> c \<and> c \<le> 0x39)"

definition hex_val :: "16 word \<Rightarrow> nat option" where
  "hex_val c =
     (if 0x30 \<le> c \<and> c \<le> 0x39 then Some (unat c - 48)
      else if 0x41 \<le> c \<and> c \<le> 0x46 then Some (unat c - 55)
      else if 0x61 \<le> c \<and> c \<le> 0x66 then Some (unat c - 87)
      else None)"

definition hex4 :: "16 word \<Rightarrow> 16 word \<Rightarrow> 16 word \<Rightarrow> 16 word \<Rightarrow> 16 word option" where
  "hex4 a b c d =
     (case (hex_val a, hex_val b, hex_val c, hex_val d) of
        (Some x, Some y, Some z, Some w) \<Rightarrow> Some (of_nat (((x * 16 + y) * 16 + z) * 16 + w))
      | _ \<Rightarrow> None)"

text \<open>The character a one-letter escape stands for.\<close>

definition unescape :: "16 word \<Rightarrow> 16 word option" where
  "unescape e =
     (if e = 0x22 then Some 0x22
      else if e = 0x5C then Some 0x5C
      else if e = 0x2F then Some 0x2F
      else if e = 0x62 then Some 0x08
      else if e = 0x66 then Some 0x0C
      else if e = 0x6E then Some 0x0A
      else if e = 0x72 then Some 0x0D
      else if e = 0x74 then Some 0x09
      else None)"

text \<open>
  The characters of a string literal after its opening quote: the decoded string and
  the text after the closing quote.
\<close>

fun parse_chars :: "jstring \<Rightarrow> (jstring \<times> jstring) option" where
  "parse_chars [] = None"
| "parse_chars (c # cs) =
     (if c = 0x22 then Some ([], cs)
      else if c = 0x5C then
        (case cs of
           [] \<Rightarrow> None
         | e # r \<Rightarrow>
             if e = 0x75 then
               (case r of
                  h1 # h2 # h3 # h4 # r' \<Rightarrow>
                    (case hex4 h1 h2 h3 h4 of
                       None \<Rightarrow> None
                     | Some w \<Rightarrow>
                         (case parse_chars r' of
                            None \<Rightarrow> None
                          | Some (s, t) \<Rightarrow> Some (w # s, t)))
                | _ \<Rightarrow> None)
             else
               (case unescape e of
                  None \<Rightarrow> None
                | Some w \<Rightarrow>
                    (case parse_chars r of
                       None \<Rightarrow> None
                     | Some (s, t) \<Rightarrow> Some (w # s, t))))
      else if c < 0x20 then None
      else (case parse_chars cs of None \<Rightarrow> None | Some (s, t) \<Rightarrow> Some (c # s, t)))"

definition digits_val :: "jstring \<Rightarrow> int" where
  "digits_val ds = foldl (\<lambda>a c. a * 10 + (uint c - 48)) 0 ds"

text \<open>
  A number literal. A fraction or an exponent, and an integer beyond \<open>2^53 - 1\<close>, are
  outside the model.
\<close>

definition parse_int :: "bool \<Rightarrow> jstring \<Rightarrow> (jsv \<times> jstring) parsed" where
  "parse_int neg s =
     (case s of
        [] \<Rightarrow> PSyntaxError
      | d # r \<Rightarrow>
          if \<not> is_digit d then PSyntaxError
          else
            let ds = (if d = 0x30 then [d] else takeWhile is_digit s);
                rest = (if d = 0x30 then r else dropWhile is_digit s);
                n = digits_val ds
            in if (case rest of [] \<Rightarrow> False | c # _ \<Rightarrow> c = 0x2E \<or> c = 0x65 \<or> c = 0x45)
               then PUnsupported
               else if 9007199254740991 < n then PUnsupported
               else POk (JNum (if neg then - n else n), rest))"

definition parse_number :: "jstring \<Rightarrow> (jsv \<times> jstring) parsed" where
  "parse_number s =
     (case s of
        [] \<Rightarrow> PSyntaxError
      | c # cs \<Rightarrow> if c = 0x2D then parse_int True cs else parse_int False s)"

text \<open>
  An object of \<open>JSON.parse\<close> enumerates its integer keys first, in ascending order, then
  the other keys in the order of their first appearance; a repeated key keeps its place
  and takes the later value.
\<close>

definition array_index :: "jstring \<Rightarrow> int option" where
  "array_index k =
     (if k \<noteq> [] \<and> list_all is_digit k \<and> (hd k = 0x30 \<longrightarrow> length k = 1)
         \<and> digits_val k \<le> 4294967294
      then Some (digits_val k) else None)"

fun obj_insert :: "jstring \<Rightarrow> jsv \<Rightarrow> (jstring \<times> jsv) list \<Rightarrow> (jstring \<times> jsv) list" where
  "obj_insert k v [] = [(k, v)]"
| "obj_insert k v ((k', v') # kvs) =
     (case array_index k of
        None \<Rightarrow> (k', v') # obj_insert k v kvs
      | Some i \<Rightarrow>
          (case array_index k' of
             None \<Rightarrow> (k, v) # (k', v') # kvs
           | Some j \<Rightarrow> if i < j then (k, v) # (k', v') # kvs else (k', v') # obj_insert k v kvs))"

definition obj_put :: "(jstring \<times> jsv) list \<Rightarrow> jstring \<times> jsv \<Rightarrow> (jstring \<times> jsv) list" where
  "obj_put kvs kv =
     (if fst kv \<in> fst ` set kvs
      then map (\<lambda>(k', v'). if k' = fst kv then (k', snd kv) else (k', v')) kvs
      else obj_insert (fst kv) (snd kv) kvs)"

definition build_object :: "(jstring \<times> jsv) list \<Rightarrow> jsv" where
  "build_object members = JObj (foldl obj_put [] members)"

text \<open>
  Recursive descent. The first argument bounds the depth of the calls; \<open>JSON_parse\<close>
  gives twice the length of the text, which no text exhausts.
\<close>

fun parse_value :: "nat \<Rightarrow> jstring \<Rightarrow> (jsv \<times> jstring) parsed"
  and parse_elements :: "nat \<Rightarrow> jstring \<Rightarrow> (jsv list \<times> jstring) parsed"
  and parse_members :: "nat \<Rightarrow> jstring \<Rightarrow> ((jstring \<times> jsv) list \<times> jstring) parsed" where
  "parse_value 0 s = PSyntaxError"
| "parse_value (Suc n) s =
     (case skip_ws s of
        [] \<Rightarrow> PSyntaxError
      | c # cs \<Rightarrow>
          if c = 0x7B then
            (case skip_ws cs of
               [] \<Rightarrow> PSyntaxError
             | d # r \<Rightarrow>
                 if d = 0x7D then POk (JObj [], r)
                 else (case parse_members n (d # r) of
                         POk (ms, t) \<Rightarrow> POk (build_object ms, t)
                       | PSyntaxError \<Rightarrow> PSyntaxError
                       | PUnsupported \<Rightarrow> PUnsupported))
          else if c = 0x5B then
            (case skip_ws cs of
               [] \<Rightarrow> PSyntaxError
             | d # r \<Rightarrow>
                 if d = 0x5D then POk (JArr [], r)
                 else (case parse_elements n (d # r) of
                         POk (vs, t) \<Rightarrow> POk (JArr vs, t)
                       | PSyntaxError \<Rightarrow> PSyntaxError
                       | PUnsupported \<Rightarrow> PUnsupported))
          else if c = 0x22 then
            (case parse_chars cs of
               None \<Rightarrow> PSyntaxError
             | Some (str, r) \<Rightarrow> POk (JStr str, r))
          else if take 4 (c # cs) = ascii ''null'' then POk (JNull, drop 4 (c # cs))
          else if take 4 (c # cs) = ascii ''true'' then POk (JBool True, drop 4 (c # cs))
          else if take 5 (c # cs) = ascii ''false'' then POk (JBool False, drop 5 (c # cs))
          else parse_number (c # cs))"
| "parse_elements 0 s = PSyntaxError"
| "parse_elements (Suc n) s =
     (case parse_value n s of
        POk (v, r) \<Rightarrow>
          (case skip_ws r of
             [] \<Rightarrow> PSyntaxError
           | c # r' \<Rightarrow>
               if c = 0x5D then POk ([v], r')
               else if c = 0x2C then
                 (case parse_elements n r' of
                    POk (vs, t) \<Rightarrow> POk (v # vs, t)
                  | PSyntaxError \<Rightarrow> PSyntaxError
                  | PUnsupported \<Rightarrow> PUnsupported)
               else PSyntaxError)
      | PSyntaxError \<Rightarrow> PSyntaxError
      | PUnsupported \<Rightarrow> PUnsupported)"
| "parse_members 0 s = PSyntaxError"
| "parse_members (Suc n) s =
     (case skip_ws s of
        [] \<Rightarrow> PSyntaxError
      | q # cs \<Rightarrow>
          if q \<noteq> 0x22 then PSyntaxError
          else
            (case parse_chars cs of
               None \<Rightarrow> PSyntaxError
             | Some (k, r) \<Rightarrow>
                 (case skip_ws r of
                    [] \<Rightarrow> PSyntaxError
                  | colon # r1 \<Rightarrow>
                      if colon \<noteq> 0x3A then PSyntaxError
                      else
                        (case parse_value n r1 of
                           POk (v, r2) \<Rightarrow>
                             (case skip_ws r2 of
                                [] \<Rightarrow> PSyntaxError
                              | c # r3 \<Rightarrow>
                                  if c = 0x7D then POk ([(k, v)], r3)
                                  else if c = 0x2C then
                                    (case parse_members n r3 of
                                       POk (ms, t) \<Rightarrow> POk ((k, v) # ms, t)
                                     | PSyntaxError \<Rightarrow> PSyntaxError
                                     | PUnsupported \<Rightarrow> PUnsupported)
                                  else PSyntaxError)
                         | PSyntaxError \<Rightarrow> PSyntaxError
                         | PUnsupported \<Rightarrow> PUnsupported))))"

definition JSON_parse :: "jstring \<Rightarrow> jsv parsed" where
  "JSON_parse s =
     (case parse_value (2 * length s + 2) s of
        POk (v, r) \<Rightarrow> if skip_ws r = [] then POk v else PSyntaxError
      | PSyntaxError \<Rightarrow> PSyntaxError
      | PUnsupported \<Rightarrow> PUnsupported)"

section \<open>JSON.stringify\<close>

definition hexdig :: "nat \<Rightarrow> 16 word" where
  "hexdig n = (if n < 10 then of_nat (48 + n) else of_nat (87 + n))"

definition uescape :: "16 word \<Rightarrow> jstring" where
  "uescape c =
     [0x5C, 0x75, hexdig (unat c div 4096), hexdig (unat c div 256 mod 16),
      hexdig (unat c div 16 mod 16), hexdig (unat c mod 16)]"

definition is_lead :: "16 word \<Rightarrow> bool" where
  "is_lead c = (0xD800 \<le> c \<and> c \<le> 0xDBFF)"

definition is_trail :: "16 word \<Rightarrow> bool" where
  "is_trail c = (0xDC00 \<le> c \<and> c \<le> 0xDFFF)"

text \<open>
  The body of a quoted string: the short escapes, \<open>\u00xx\<close> for the other control
  characters and \<open>\udxxx\<close> for a surrogate that is not part of a pair.
\<close>

fun quote_chars :: "jstring \<Rightarrow> jstring" where
  "quote_chars [] = []"
| "quote_chars (c # cs) =
     (if c = 0x08 then [0x5C, 0x62] @ quote_chars cs
      else if c = 0x09 then [0x5C, 0x74] @ quote_chars cs
      else if c = 0x0A then [0x5C, 0x6E] @ quote_chars cs
      else if c = 0x0C then [0x5C, 0x66] @ quote_chars cs
      else if c = 0x0D then [0x5C, 0x72] @ quote_chars cs
      else if c = 0x22 then [0x5C, 0x22] @ quote_chars cs
      else if c = 0x5C then [0x5C, 0x5C] @ quote_chars cs
      else if c < 0x20 then uescape c @ quote_chars cs
      else if is_lead c then
        (case cs of
           [] \<Rightarrow> uescape c
         | d # ds \<Rightarrow>
             if is_trail d then c # d # quote_chars ds else uescape c @ quote_chars cs)
      else if is_trail c then uescape c @ quote_chars cs
      else c # quote_chars cs)"

definition quote :: "jstring \<Rightarrow> jstring" where
  "quote s = [0x22] @ quote_chars s @ [0x22]"

text \<open>
  \<open>ser gap indent v\<close> is the serialisation of \<open>v\<close> with the indentation unit \<open>gap\<close>
  at the current indentation; \<open>None\<close> is \<open>undefined\<close>. A property whose value is
  \<open>undefined\<close> is left out, an \<open>undefined\<close> array element prints as \<open>null\<close>.
\<close>

definition wrap :: "jstring \<Rightarrow> jstring \<Rightarrow> jstring \<Rightarrow> jstring \<Rightarrow> jstring list \<Rightarrow> jstring" where
  "wrap gap indent opening closing parts =
     (if parts = [] then opening @ closing
      else if gap = [] then opening @ join [0x2C] parts @ closing
      else opening @ [0x0A] @ indent @ gap @ join ([0x2C, 0x0A] @ indent @ gap) parts
             @ [0x0A] @ indent @ closing)"

fun ser :: "jstring \<Rightarrow> jstring \<Rightarrow> jsv \<Rightarrow> jstring option"
  and ser_elems :: "jstring \<Rightarrow> jstring \<Rightarrow> jsv list \<Rightarrow> jstring list"
  and ser_members :: "jstring \<Rightarrow> jstring \<Rightarrow> (jstring \<times> jsv) list \<Rightarrow> jstring list" where
  "ser gap indent JUndefined = None"
| "ser gap indent JNull = Some (ascii ''null'')"
| "ser gap indent (JBool b) = Some (if b then ascii ''true'' else ascii ''false'')"
| "ser gap indent (JNum n) = Some (decimal n)"
| "ser gap indent (JStr s) = Some (quote s)"
| "ser gap indent (JArr xs) =
     Some (wrap gap indent [0x5B] [0x5D] (ser_elems gap (indent @ gap) xs))"
| "ser gap indent (JObj kvs) =
     Some (wrap gap indent [0x7B] [0x7D] (ser_members gap (indent @ gap) kvs))"
| "ser_elems gap indent [] = []"
| "ser_elems gap indent (x # xs) =
     (case ser gap indent x of None \<Rightarrow> ascii ''null'' | Some t \<Rightarrow> t) # ser_elems gap indent xs"
| "ser_members gap indent [] = []"
| "ser_members gap indent (kv # kvs) =
     (case ser gap indent (snd kv) of
        None \<Rightarrow> ser_members gap indent kvs
      | Some t \<Rightarrow>
          (quote (fst kv) @ [0x3A] @ (if gap = [] then [] else [0x20]) @ t)
            # ser_members gap indent kvs)"

text \<open>\<open>JSON.stringify(v)\<close> and \<open>JSON.stringify(v, null, 2)\<close>.\<close>

definition JSON_stringify :: "jsv \<Rightarrow> jstring option" where
  "JSON_stringify v = ser [] [] v"

definition JSON_stringify2 :: "jsv \<Rightarrow> jstring option" where
  "JSON_stringify2 v = ser (ascii ''  '') [] v"

section \<open>The platform, the file system and the remote\<close>

text \<open>
  What the scripts take from Node and do not define: whether a string converts to a
  number above zero, whether \<open>new URL\<close> accepts an endpoint, whether the request module
  accepts \<open>token <accessToken>\<close> as the value of the \<open>Authorization\<close> header, and
  \<open>path.join\<close>.
\<close>

record platform =
  str_pos :: "jstring \<Rightarrow> bool"
  url_ok :: "jstring \<Rightarrow> bool"
  header_ok :: "jstring \<Rightarrow> bool"
  path_join :: "jstring \<Rightarrow> jstring \<Rightarrow> jstring"

datatype fs_entry = Dir | File jstring

text \<open>One POST to the GraphQL endpoint: the body is \<open>JSON.stringify({query, variables})\<close>.\<close>

record request =
  endpoint :: jstring
  token :: jstring
  query :: jstring
  variables :: jsv

definition request_body :: "request \<Rightarrow> jstring option" where
  "request_body r =
     JSON_stringify (JObj [(ascii ''query'', JStr (query r)), (ascii ''variables'', variables r)])"

text \<open>
  A request ends with a status code and a body (the \<open>end\<close> event of the response), with
  an error of the request (its \<open>error\<close> event), or with neither: when the connection is
  lost after the headers of the response have arrived, the response is aborted without an
  \<open>end\<close> event and the request emits no \<open>error\<close>, so none of the handlers that
  \<open>executeQuery\<close> installs runs.
\<close>

datatype response = Reply nat jstring | NetError jstring | Cut

text \<open>
  The world a script runs in. The remote answers a request knowing the requests
  before it; \<open>sent\<close> is the list of the requests issued so far, oldest first.
  \<open>can_write p\<close> says whether \<open>writeFileSync\<close> succeeds on \<open>p\<close>, \<open>can_mkdir p\<close>
  whether \<open>mkdirSync\<close> does, and \<open>now\<close> is what \<open>new Date().toISOString()\<close> returns.
\<close>

record world =
  fs :: "jstring \<Rightarrow> fs_entry option"
  can_write :: "jstring \<Rightarrow> bool"
  can_mkdir :: "jstring \<Rightarrow> bool"
  remote :: "request list \<Rightarrow> request \<Rightarrow> response"
  sent :: "request list"
  now :: jstring

definition existsSync :: "world \<Rightarrow> jstring \<Rightarrow> bool" where
  "existsSync w p = (fs w p \<noteq> None)"

definition readFileSync :: "world \<Rightarrow> jstring \<Rightarrow> error + jstring" where
  "readFileSync w p = (case fs w p of Some (File c) \<Rightarrow> Inr c | _ \<Rightarrow> Inl FsError)"

definition writeFileSync :: "jstring \<Rightarrow> jstring \<Rightarrow> world \<Rightarrow> error + world" where
  "writeFileSync p c w =
     (if can_write w p then Inr (w\<lparr>fs := (fs w)(p \<mapsto> File c)\<rparr>) else Inl FsError)"

text \<open>\<open>url.replace(/\/$/, '')\<close>: one trailing slash is removed.\<close>

definition strip_slash :: "jstring \<Rightarrow> jstring" where
  "strip_slash u = (if u \<noteq> [] \<and> last u = 0x2F then butlast u else u)"

definition graphql_endpoint :: "jstring \<Rightarrow> jstring" where
  "graphql_endpoint base = base @ ascii ''/.api/graphql''"

text \<open>A template literal over several lines.\<close>

definition text_lines :: "string list \<Rightarrow> jstring" where
  "text_lines ls = join [0x0A] (map ascii ls)"

section \<open>The transport client\<close>

text \<open>
  The handler of the \<open>end\<close> event in \<open>executeQuery\<close>. Everything after the status
  check runs inside one \<open>try\<close>: a \<open>SyntaxError\<close> of \<open>JSON.parse\<close> and a \<open>TypeError\<close>
  of the lines after it are both caught and rejected as a parse failure.
\<close>

definition on_end :: "platform \<Rightarrow> nat \<Rightarrow> jstring \<Rightarrow> error + jsv" where
  "on_end pf status responseData =
     (if 400 \<le> status then Inl (HttpError status responseData)
      else
        (case JSON_parse responseData of
           PSyntaxError \<Rightarrow> Inl ParseResponseError
         | PUnsupported \<Rightarrow> Inl Unmodelled
         | POk parsedData \<Rightarrow>
             (case get_prop parsedData (ascii ''errors'') of
                Inl _ \<Rightarrow> Inl ParseResponseError
              | Inr errors \<Rightarrow>
                  (case (if truthy errors
                         then (case get_prop errors (ascii ''length'') of
                                 Inl e \<Rightarrow> Inl e
                               | Inr len \<Rightarrow> gt_zero (str_pos pf) len)
                         else Inr False) of
                     Inl _ \<Rightarrow> Inl ParseResponseError
                   | Inr True \<Rightarrow>
                       (case index0 errors of
                          Inl _ \<Rightarrow> Inl ParseResponseError
                        | Inr first \<Rightarrow>
                            (case get_prop first (ascii ''message'') of
                               Inl _ \<Rightarrow> Inl ParseResponseError
                             | Inr m \<Rightarrow>
                                 (case to_string m of
                                    Inl _ \<Rightarrow> Inl ParseResponseError
                                  | Inr msg \<Rightarrow> Inl (GraphQLError msg))))
                   | Inr False \<Rightarrow>
                       (case get_prop parsedData (ascii ''data'') of
                          Inl _ \<Rightarrow> Inl ParseResponseError
                        | Inr d \<Rightarrow> Inr d)))))"

text \<open>
  \<open>executeQuery\<close>: the endpoint is built first and the request object with its headers
  next (no request leaves when one of them throws), then the request is sent and its
  outcome handled. The promise is settled by the \<open>end\<close> handler of the response and by
  the \<open>error\<close> handler of the request only; when neither runs it stays pending.
\<close>

definition executeQuery ::
  "platform \<Rightarrow> jstring \<Rightarrow> jstring \<Rightarrow> jstring \<Rightarrow> jsv \<Rightarrow> world \<Rightarrow> (error + jsv) \<times> world" where
  "executeQuery pf graphqlEndpoint accessToken q vars w =
     (if \<not> url_ok pf graphqlEndpoint then (Inl InvalidUrl, w)
      else if \<not> header_ok pf accessToken then (Inl InvalidHeader, w)
      else
        let req = \<lparr>endpoint = graphqlEndpoint, token = accessToken, query = q, variables = vars\<rparr>;
            w' = w\<lparr>sent := sent w @ [req]\<rparr>
        in (case remote w (sent w) req of
              NetError msg \<Rightarrow> (Inl (RequestError msg), w')
            | Cut \<Rightarrow> (Inl Unsettled, w')
            | Reply status responseData \<Rightarrow> (on_end pf status responseData, w')))"

section \<open>The import script\<close>

definition existing_services_query :: jstring where
  "existing_services_query = text_lines
     ['''',
      ''    query {'',
      ''      externalServices {'',
      ''        nodes {'',
      ''          id'',
      ''          displayName'',
      ''          kind'',
      ''        }'',
      ''      }'',
      ''    }'',
      ''  '']"

definition add_service_mutation :: jstring where
  "add_service_mutation = text_lines
     ['''',
      ''      mutation AddExternalService($input: AddExternalServiceInput!) {'',
      ''        addExternalService(input: $input) {'',
      ''          id'',
      ''        }'',
      ''      }'',
      ''    '']"

text \<open>What \<open>for (const x of v)\<close> iterates: the elements of an array, the code points of a
  string; any other parsed value is not iterable.\<close>

fun code_points :: "jstring \<Rightarrow> jstring list" where
  "code_points [] = []"
| "code_points [c] = [[c]]"
| "code_points (c # d # cs) =
     (if is_lead c \<and> is_trail d then [c, d] # code_points cs
      else [c] # code_points (d # cs))"

fun iterate :: "jsv \<Rightarrow> error + jsv list" where
  "iterate (JArr xs) = Inr xs"
| "iterate (JStr s) = Inr (map JStr (code_points s))"
| "iterate _ = Inl TypeError"

text \<open>
  \<open>existingServices.find(s => s.displayName === service.displayName && s.kind === service.kind)\<close>
  on the elements of an array: the first element the test accepts, \<open>undefined\<close> when
  there is none.
\<close>

fun find_existing :: "jsv list \<Rightarrow> jsv \<Rightarrow> error + jsv" where
  "find_existing [] service = Inr JUndefined"
| "find_existing (s # rest) service =
     (case get_prop s (ascii ''displayName'') of
        Inl e \<Rightarrow> Inl e
      | Inr sd \<Rightarrow>
          (case get_prop service (ascii ''displayName'') of
             Inl e \<Rightarrow> Inl e
           | Inr d \<Rightarrow>
               if strict_eq sd d
                  \<and> strict_eq (opt_prop s (ascii ''kind'')) (opt_prop service (ascii ''kind''))
               then Inr s
               else find_existing rest service))"

text \<open>Only an array has a \<open>find\<close> method among the values a response can hold.\<close>

fun find_service :: "jsv \<Rightarrow> jsv \<Rightarrow> error + jsv" where
  "find_service (JArr xs) service = find_existing xs service"
| "find_service _ service = Inl TypeError"

text \<open>The counters of the loop, as the last line of the log prints them.\<close>

record counts =
  added :: nat
  skipped :: nat

definition add_service_variables :: "jsv \<Rightarrow> error + jsv" where
  "add_service_variables service =
     (case get_prop service (ascii ''displayName'') of
        Inl e \<Rightarrow> Inl e
      | Inr d \<Rightarrow>
          Inr (JObj [(ascii ''input'',
                 JObj [(ascii ''displayName'', d),
                       (ascii ''kind'', opt_prop service (ascii ''kind'')),
                       (ascii ''config'', opt_prop service (ascii ''config''))])]))"

text \<open>The line logged after a creation interpolates the name and the kind.\<close>

definition log_added :: "jsv \<Rightarrow> error + unit" where
  "log_added service =
     (case to_string (opt_prop service (ascii ''displayName'')) of
        Inl e \<Rightarrow> Inl e
      | Inr _ \<Rightarrow>
          (case to_string (opt_prop service (ascii ''kind'')) of
             Inl e \<Rightarrow> Inl e
           | Inr _ \<Rightarrow> Inr ()))"

text \<open>The loop over the services of the bundle.\<close>

fun import_loop ::
  "platform \<Rightarrow> jstring \<Rightarrow> jstring \<Rightarrow> jsv \<Rightarrow> jsv list \<Rightarrow> counts \<Rightarrow> world \<Rightarrow> (error + counts) \<times> world" where
  "import_loop pf ep tok existingServices [] c w = (Inr c, w)"
| "import_loop pf ep tok existingServices (service # rest) c w =
     (case find_service existingServices service of
        Inl e \<Rightarrow> (Inl e, w)
      | Inr existingService \<Rightarrow>
          if truthy existingService
          then import_loop pf ep tok existingServices rest (c\<lparr>skipped := skipped c + 1\<rparr>) w
          else
            (case add_service_variables service of
               Inl e \<Rightarrow> (Inl e, w)
             | Inr vars \<Rightarrow>
                 (case executeQuery pf ep tok add_service_mutation vars w of
                    (Inl e, w') \<Rightarrow> (Inl e, w')
                  | (Inr _, w') \<Rightarrow>
                      (case log_added service of
                         Inl e \<Rightarrow> (Inl e, w')
                       | Inr _ \<Rightarrow>
                           import_loop pf ep tok existingServices rest
                             (c\<lparr>added := added c + 1\<rparr>) w'))))"

definition importExternalServices ::
  "platform \<Rightarrow> jstring \<Rightarrow> jstring \<Rightarrow> jstring \<Rightarrow> world \<Rightarrow> (error + counts) \<times> world" where
  "importExternalServices pf ep tok externalServicesPath w =
     (case readFileSync w externalServicesPath of
        Inl e \<Rightarrow> (Inl e, w)
      | Inr content \<Rightarrow>
          (case JSON_parse content of
             PSyntaxError \<Rightarrow> (Inl SyntaxError, w)
           | PUnsupported \<Rightarrow> (Inl Unmodelled, w)
           | POk services \<Rightarrow>
               (case executeQuery pf ep tok existing_services_query (JObj []) w of
                  (Inl e, w') \<Rightarrow> (Inl e, w')
                | (Inr data, w') \<Rightarrow>
                    let nodes = opt_prop (opt_prop data (ascii ''externalServices'')) (ascii ''nodes'');
                        existingServices = (if truthy nodes then nodes else JArr [])
                    in (case to_string (opt_prop existingServices (ascii ''length'')) of
                          Inl e \<Rightarrow> (Inl e, w')
                        | Inr _ \<Rightarrow>
                            (case iterate services of
                               Inl e \<Rightarrow> (Inl e, w')
                             | Inr entries \<Rightarrow>
                                 import_loop pf ep tok existingServices entries
                                   \<lparr>added = 0, skipped = 0\<rparr> w')))))"

definition import_summary :: "jstring \<Rightarrow> jstring \<Rightarrow> jstring \<Rightarrow> jsv" where
  "import_summary timestamp baseUrl status =
     JObj [(ascii ''timestamp'', JStr timestamp),
           (ascii ''targetUrl'', JStr baseUrl),
           (ascii ''status'', JStr status)]"

text \<open>
  \<open>main\<close> of the import script: its \<open>catch\<close> turns every failure into exit status 1.
  When the awaited call never settles, neither the lines after it nor the \<open>catch\<close> run,
  and the process ends with exit status 0. The result is the exit status of the process
  and the world it leaves.
\<close>

definition exit_status :: "error \<Rightarrow> nat" where
  "exit_status e = (if e = Unsettled then 0 else 1)"

definition import_main ::
  "platform \<Rightarrow> jstring \<Rightarrow> jstring \<Rightarrow> jstring \<Rightarrow> jstring \<Rightarrow> world \<Rightarrow> nat \<times> world" where
  "import_main pf baseUrl accessToken inputDir externalServicesPath w =
     (case importExternalServices pf (graphql_endpoint baseUrl) accessToken externalServicesPath w of
        (Inl e, w') \<Rightarrow> (exit_status e, w')
      | (Inr c, w') \<Rightarrow>
          (case JSON_stringify2 (import_summary (now w) baseUrl (ascii ''completed'')) of
             None \<Rightarrow> (1, w')
           | Some text \<Rightarrow>
               (case writeFileSync (path_join pf inputDir (ascii ''import-summary.json'')) text w' of
                  Inl e \<Rightarrow> (1, w')
                | Inr w'' \<Rightarrow> (0, w''))))"

text \<open>The script from its first line: the arguments and the input files are checked
  before \<open>main\<close> is called.\<close>

definition import_script :: "platform \<Rightarrow> jstring list \<Rightarrow> world \<Rightarrow> nat \<times> world" where
  "import_script pf args w =
     (if length args < 3 then (1, w)
      else
        let targetUrl = args ! 0; accessToken = args ! 1; inputDir = args ! 2
        in if \<not> existsSync w inputDir then (1, w)
           else
             let siteConfigPath = path_join pf inputDir (ascii ''site-config.json'');
                 externalServicesPath = path_join pf inputDir (ascii ''external-services.json'')
             in if \<not> existsSync w siteConfigPath then (1, w)
                else if \<not> existsSync w externalServicesPath then (1, w)
                else import_main pf (strip_slash targetUrl) accessToken inputDir
                       externalServicesPath w)"

section \<open>The export script\<close>

definition site_config_query :: jstring where
  "site_config_query = text_lines
     ['''',
      ''    query {'',
      ''      site {'',
      ''        configuration {'',
      ''          id'',
      ''          effectiveContents'',
      ''        }'',
      ''      }'',
      ''    }'',
      ''  '']"

definition export_services_query :: jstring where
  "export_services_query = text_lines
     ['''',
      ''    query {'',
      ''      externalServices {'',
      ''        nodes {'',
      ''          id'',
      ''          kind'',
      ''          displayName'',
      ''          config'',
      ''        }'',
      ''      }'',
      ''    }'',
      ''  '']"

definition REDACTED :: jstring where
  "REDACTED = ascii ''REDACTED''"

definition NEEDS_UPDATING :: jstring where
  "NEEDS_UPDATING = ascii ''NEEDS_UPDATING''"

text \<open>
  \<open>s.replaceAll(p, r)\<close> for a string pattern and a replacement without \<open>$\<close>: the
  occurrences of \<open>p\<close> are found from the left, each search starting after the last
  match. For the empty pattern, \<open>r\<close> is put before every code unit and at the end.
\<close>

function replaceAll :: "jstring \<Rightarrow> jstring \<Rightarrow> jstring \<Rightarrow> jstring" where
  "replaceAll p r s =
     (if p = [] then r @ concat (map (\<lambda>c. c # r) s)
      else if s = [] then []
      else if take (length p) s = p then r @ replaceAll p r (drop (length p) s)
      else hd s # replaceAll p r (tl s))"
  by pat_completeness auto
termination
  by (relation "measure (\<lambda>(p, r, s). length s)") auto

declare replaceAll.simps [simp del]

text \<open>\<open>JSON.parse(JSON.stringify(data).replaceAll("REDACTED", "NEEDS_UPDATING"))\<close>\<close>

definition sanitize :: "jsv \<Rightarrow> error + jsv" where
  "sanitize data =
     (case JSON_stringify data of
        None \<Rightarrow> Inl TypeError
      | Some text \<Rightarrow>
          (case JSON_parse (replaceAll REDACTED NEEDS_UPDATING text) of
             PSyntaxError \<Rightarrow> Inl SyntaxError
           | PUnsupported \<Rightarrow> Inl Unmodelled
           | POk v \<Rightarrow> Inr v))"

text \<open>\<open>writeFileSync\<close> takes a string; any other parsed value makes it throw.\<close>

definition write_value :: "jstring \<Rightarrow> jsv \<Rightarrow> world \<Rightarrow> error + world" where
  "write_value p v w = (case v of JStr c \<Rightarrow> writeFileSync p c w | _ \<Rightarrow> Inl TypeError)"

definition exportSiteConfig ::
  "platform \<Rightarrow> jstring \<Rightarrow> jstring \<Rightarrow> jstring \<Rightarrow> world \<Rightarrow> (error + jsv) \<times> world" where
  "exportSiteConfig pf ep tok outputDir w =
     (case executeQuery pf ep tok site_config_query (JObj []) w of
        (Inl e, w') \<Rightarrow> (Inl e, w')
      | (Inr data, w') \<Rightarrow>
          if \<not> truthy (opt_prop (opt_prop data (ascii ''site'')) (ascii ''configuration''))
          then (Inl (MissingData (ascii ''Failed to retrieve site configuration'')), w')
          else
            (case sanitize data of
               Inl e \<Rightarrow> (Inl e, w')
             | Inr sanitizedData \<Rightarrow>
                 (case get_prop sanitizedData (ascii ''site'') of
                    Inl e \<Rightarrow> (Inl e, w')
                  | Inr site \<Rightarrow>
                      (case get_prop site (ascii ''configuration'') of
                         Inl e \<Rightarrow> (Inl e, w')
                       | Inr configuration \<Rightarrow>
                           (case get_prop configuration (ascii ''effectiveContents'') of
                              Inl e \<Rightarrow> (Inl e, w')
                            | Inr config \<Rightarrow>
                                (case write_value (path_join pf outputDir (ascii ''site-config.json''))
                                        config w' of
                                   Inl e \<Rightarrow> (Inl e, w')
                                 | Inr w'' \<Rightarrow>
                                     (case get_prop config (ascii ''id'') of
                                        Inl e \<Rightarrow> (Inl e, w'')
                                      | Inr i \<Rightarrow> (Inr i, w''))))))))"

definition exportExternalServices ::
  "platform \<Rightarrow> jstring \<Rightarrow> jstring \<Rightarrow> jstring \<Rightarrow> world \<Rightarrow> (error + jsv) \<times> world" where
  "exportExternalServices pf ep tok outputDir w =
     (case executeQuery pf ep tok export_services_query (JObj []) w of
        (Inl e, w') \<Rightarrow> (Inl e, w')
      | (Inr data, w') \<Rightarrow>
          if \<not> truthy (opt_prop (opt_prop data (ascii ''externalServices'')) (ascii ''nodes''))
          then (Inl (MissingData (ascii ''Failed to retrieve external services'')), w')
          else
            (case sanitize data of
               Inl e \<Rightarrow> (Inl e, w')
             | Inr sanitizedData \<Rightarrow>
                 (case get_prop sanitizedData (ascii ''externalServices'') of
                    Inl e \<Rightarrow> (Inl e, w')
                  | Inr es \<Rightarrow>
                      (case get_prop es (ascii ''nodes'') of
                         Inl e \<Rightarrow> (Inl e, w')
                       | Inr services \<Rightarrow>
                           (case (case JSON_stringify2 services of
                                    None \<Rightarrow> Inl TypeError
                                  | Some text \<Rightarrow>
                                      writeFileSync
                                        (path_join pf outputDir (ascii ''external-services.json''))
                                        text w') of
                              Inl e \<Rightarrow> (Inl e, w')
                            | Inr w'' \<Rightarrow>
                                (case get_prop services (ascii ''length'') of
                                   Inl e \<Rightarrow> (Inl e, w'')
                                 | Inr len \<Rightarrow>
                                     (case to_string len of
                                        Inl e \<Rightarrow> (Inl e, w'')
                                      | Inr _ \<Rightarrow> (Inr services, w''))))))))"

definition export_summary :: "jstring \<Rightarrow> jstring \<Rightarrow> jsv \<Rightarrow> jsv \<Rightarrow> jsv" where
  "export_summary timestamp baseUrl siteConfigId count =
     JObj [(ascii ''timestamp'', JStr timestamp),
           (ascii ''sourcegraphUrl'', JStr baseUrl),
           (ascii ''siteConfigId'', siteConfigId),
           (ascii ''externalServicesCount'', count)]"

text \<open>\<open>main\<close> of the export script; the result carries what \<open>exportSiteConfig\<close> returned
  when the run got that far.\<close>

definition export_main ::
  "platform \<Rightarrow> jstring \<Rightarrow> jstring \<Rightarrow> jstring \<Rightarrow> world \<Rightarrow> nat \<times> world" where
  "export_main pf baseUrl accessToken outputDir w =
     (case exportSiteConfig pf (graphql_endpoint baseUrl) accessToken outputDir w of
        (Inl e, w1) \<Rightarrow> (exit_status e, w1)
      | (Inr siteConfigId, w1) \<Rightarrow>
          (case exportExternalServices pf (graphql_endpoint baseUrl) accessToken outputDir w1 of
             (Inl e, w2) \<Rightarrow> (exit_status e, w2)
           | (Inr externalServices, w2) \<Rightarrow>
               (case get_prop externalServices (ascii ''length'') of
                  Inl e \<Rightarrow> (1, w2)
                | Inr count \<Rightarrow>
                    (case JSON_stringify2 (export_summary (now w2) baseUrl siteConfigId count) of
                       None \<Rightarrow> (1, w2)
                     | Some text \<Rightarrow>
                         (case writeFileSync (path_join pf outputDir (ascii ''export-summary.json''))
                                 text w2 of
                            Inl e \<Rightarrow> (1, w2)
                          | Inr w3 \<Rightarrow> (0, w3))))))"

text \<open>The script from its first line: the output directory is created when missing.\<close>

definition export_script :: "platform \<Rightarrow> jstring list \<Rightarrow> world \<Rightarrow> nat \<times> world" where
  "export_script pf args w =
     (if length args < 3 then (1, w)
      else
        let sourcegraphUrl = args ! 0; accessToken = args ! 1; outputDir = args ! 2
        in if \<not> existsSync w outputDir \<and> \<not> can_mkdir w outputDir then (1, w)
           else
             let w0 = (if existsSync w outputDir then w
                       else w\<lparr>fs := (fs w)(outputDir \<mapsto> Dir)\<rparr>)
             in export_main pf (strip_slash sourcegraphUrl) accessToken outputDir w0)"

section \<open>Notions used to state the properties\<close>

text \<open>What the transport client makes of the remote's answer to a request sent after
  the requests \<open>hist\<close>.\<close>

definition outcome :: "platform \<Rightarrow> world \<Rightarrow> request list \<Rightarrow> request \<Rightarrow> error + jsv" where
  "outcome pf w hist req =
     (case remote w hist req of
        NetError msg \<Rightarrow> Inl (RequestError msg)
      | Cut \<Rightarrow> Inl Unsettled
      | Reply status responseData \<Rightarrow> on_end pf status responseData)"




text \<open>
  Whether the texts a run can meet are within the model of \<open>JSON.parse\<close>: the file at
  \<open>p\<close> and every body the remote answers with hold no number literal outside of it.
\<close>

definition within_model :: "world \<Rightarrow> jstring \<Rightarrow> bool" where
  "within_model w p =
     ((case fs w p of Some (File c) \<Rightarrow> JSON_parse c \<noteq> PUnsupported | _ \<Rightarrow> True)
      \<and> (\<forall>hist req status body.
            remote w hist req = Reply status body \<longrightarrow> JSON_parse body \<noteq> PUnsupported))"

text \<open>The name and the kind of a service record: an object whose \<open>displayName\<close> and
  \<open>kind\<close> are strings.\<close>

definition name_kind :: "jsv \<Rightarrow> (jstring \<times> jstring) option" where
  "name_kind v =
     (case v of
        JObj kvs \<Rightarrow>
          (case (own_prop kvs (ascii ''displayName''), own_prop kvs (ascii ''kind'')) of
             (JStr d, JStr k) \<Rightarrow> Some (d, k)
           | _ \<Rightarrow> None)
      | _ \<Rightarrow> None)"

definition is_object :: "jsv \<Rightarrow> bool" where
  "is_object v = (case v of JObj _ \<Rightarrow> True | _ \<Rightarrow> False)"

text \<open>The create mutation for a bundle entry, with the entry's name, kind and
  configuration as its input.\<close>

definition create_request :: "jstring \<Rightarrow> jstring \<Rightarrow> jsv \<Rightarrow> request" where
  "create_request ep tok entry =
     \<lparr>endpoint = ep, token = tok, query = add_service_mutation,
      variables =
        JObj [(ascii ''input'',
          JObj [(ascii ''displayName'', opt_prop entry (ascii ''displayName'')),
                (ascii ''kind'', opt_prop entry (ascii ''kind'')),
                (ascii ''config'', opt_prop entry (ascii ''config''))])]\<rparr>"

definition existing_request :: "jstring \<Rightarrow> jstring \<Rightarrow> request" where
  "existing_request ep tok =
     \<lparr>endpoint = ep, token = tok, query = existing_services_query, variables = JObj []\<rparr>"

text \<open>The number of places at which \<open>p\<close> occurs in \<open>s\<close>.\<close>

fun occurrences :: "jstring \<Rightarrow> jstring \<Rightarrow> nat" where
  "occurrences p [] = (if p = [] then 1 else 0)"
| "occurrences p (c # cs) =
     (if take (length p) (c # cs) = p then 1 else 0) + occurrences p cs"

text \<open>
  A run stops at the first request that does not succeed: in the list of the requests
  sent after \<open>hist\<close>, only the last one can have been rejected or left unsettled, and
  then the run ends as that request did (\<open>r\<close> is how the run ended: the error that came
  up to \<open>main\<close>, if any).
\<close>

fun stops_at_failure ::
  "platform \<Rightarrow> world \<Rightarrow> request list \<Rightarrow> request list \<Rightarrow> error option \<Rightarrow> bool" where
  "stops_at_failure pf w hist [] r = True"
| "stops_at_failure pf w hist (q # qs) r =
     (case outcome pf w hist q of
        Inl e \<Rightarrow> qs = [] \<and> r = Some e
      | Inr _ \<Rightarrow> stops_at_failure pf w (hist @ [q]) qs r)"

definition error_of :: "error + 'a \<Rightarrow> error option" where
  "error_of r = (case r of Inl e \<Rightarrow> Some e | Inr _ \<Rightarrow> None)"

text \<open>Whether \<open>e\<close> is one of the entries that the loop of the import iterates over: an
  entry of the parsed external-services file at \<open>p\<close>.\<close>

definition from_bundle :: "world \<Rightarrow> jstring \<Rightarrow> jsv \<Rightarrow> bool" where
  "from_bundle w p e =
     (case readFileSync w p of
        Inl _ \<Rightarrow> False
      | Inr content \<Rightarrow>
          (case JSON_parse content of
             POk services \<Rightarrow>
               (case iterate services of Inl _ \<Rightarrow> False | Inr entries \<Rightarrow> e \<in> set entries)
           | _ \<Rightarrow> False))"

text \<open>A string no proper prefix of which is also a suffix of it: two occurrences of it
  cannot overlap.\<close>

definition borderless :: "jstring \<Rightarrow> bool" where
  "borderless x = (\<forall>k\<in>{1..<length x}. take k x \<noteq> drop (length x - k) x)"


text \<open>
  A character that is neither an upper-case letter nor \<open>_\<close> or \<open>^\<close>: the punctuation,
  the digits, the white space and the lower-case letters that \<open>JSON.stringify\<close> writes
  outside of strings and in escapes are all of this kind, and neither sentinel contains
  such a character.
\<close>

definition inert :: "16 word \<Rightarrow> bool" where
  "inert c = (c < 0x41 \<or> 0x5F < c \<or> c = 0x5B \<or> c = 0x5C \<or> c = 0x5D)"

definition sentinel_like :: "jstring \<Rightarrow> bool" where
  "sentinel_like p = (p \<noteq> [] \<and> (\<forall>c\<in>set p. \<not> inert c))"

text \<open>The substitution applied to every string and every property name of a value.\<close>

fun sanit :: "jsv \<Rightarrow> jsv"
  and sanit_elems :: "jsv list \<Rightarrow> jsv list"
  and sanit_members :: "(jstring \<times> jsv) list \<Rightarrow> (jstring \<times> jsv) list" where
  "sanit JUndefined = JUndefined"
| "sanit JNull = JNull"
| "sanit (JBool b) = JBool b"
| "sanit (JNum n) = JNum n"
| "sanit (JStr s) = JStr (replaceAll REDACTED NEEDS_UPDATING s)"
| "sanit (JArr xs) = JArr (sanit_elems xs)"
| "sanit (JObj kvs) = JObj (sanit_members kvs)"
| "sanit_elems [] = []"
| "sanit_elems (x # xs) = sanit x # sanit_elems xs"
| "sanit_members [] = []"
| "sanit_members (kv # kvs) =
     (replaceAll REDACTED NEEDS_UPDATING (fst kv), sanit (snd kv)) # sanit_members kvs"

text \<open>A value as \<open>JSON.parse\<close> rebuilds it from its serialisation: every object is built
  again from its members, in their order.\<close>

fun rebuilt :: "jsv \<Rightarrow> jsv"
  and rebuilt_elems :: "jsv list \<Rightarrow> jsv list"
  and rebuilt_members :: "(jstring \<times> jsv) list \<Rightarrow> (jstring \<times> jsv) list" where
  "rebuilt JUndefined = JUndefined"
| "rebuilt JNull = JNull"
| "rebuilt (JBool b) = JBool b"
| "rebuilt (JNum n) = JNum n"
| "rebuilt (JStr s) = JStr s"
| "rebuilt (JArr xs) = JArr (rebuilt_elems xs)"
| "rebuilt (JObj kvs) = build_object (rebuilt_members kvs)"
| "rebuilt_elems [] = []"
| "rebuilt_elems (x # xs) = rebuilt x # rebuilt_elems xs"
| "rebuilt_members [] = []"
| "rebuilt_members (kv # kvs) = (fst kv, rebuilt (snd kv)) # rebuilt_members kvs"

text \<open>The occurrences of \<open>p\<close> in the strings and the property names of a value.\<close>

fun text_count :: "jstring \<Rightarrow> jsv \<Rightarrow> nat"
  and text_count_elems :: "jstring \<Rightarrow> jsv list \<Rightarrow> nat"
  and text_count_members :: "jstring \<Rightarrow> (jstring \<times> jsv) list \<Rightarrow> nat" where
  "text_count p JUndefined = 0"
| "text_count p JNull = 0"
| "text_count p (JBool b) = 0"
| "text_count p (JNum n) = 0"
| "text_count p (JStr s) = occurrences p s"
| "text_count p (JArr xs) = text_count_elems p xs"
| "text_count p (JObj kvs) = text_count_members p kvs"
| "text_count_elems p [] = 0"
| "text_count_elems p (x # xs) = text_count p x + text_count_elems p xs"
| "text_count_members p [] = 0"
| "text_count_members p (kv # kvs) =
     occurrences p (fst kv) + text_count p (snd kv) + text_count_members p kvs"

text \<open>
  What every result of \<open>JSON.parse\<close> is: no \<open>undefined\<close> inside, numbers in the range of
  the model, and no property name twice in an object.
\<close>

fun parsed_like :: "jsv \<Rightarrow> bool"
  and parsed_like_elems :: "jsv list \<Rightarrow> bool"
  and parsed_like_members :: "(jstring \<times> jsv) list \<Rightarrow> bool" where
  "parsed_like JUndefined = False"
| "parsed_like JNull = True"
| "parsed_like (JBool b) = True"
| "parsed_like (JNum n) = (\<bar>n\<bar> \<le> 9007199254740991)"
| "parsed_like (JStr s) = True"
| "parsed_like (JArr xs) = parsed_like_elems xs"
| "parsed_like (JObj kvs) = (distinct (map fst kvs) \<and> parsed_like_members kvs)"
| "parsed_like_elems [] = True"
| "parsed_like_elems (x # xs) = (parsed_like x \<and> parsed_like_elems xs)"
| "parsed_like_members [] = True"
| "parsed_like_members (kv # kvs) = (parsed_like (snd kv) \<and> parsed_like_members kvs)"

text \<open>Whether no property name of a value contains \<open>p\<close>.\<close>

fun names_without :: "jstring \<Rightarrow> jsv \<Rightarrow> bool"
  and names_without_elems :: "jstring \<Rightarrow> jsv list \<Rightarrow> bool"
  and names_without_members :: "jstring \<Rightarrow> (jstring \<times> jsv) list \<Rightarrow> bool" where
  "names_without p (JArr xs) = names_without_elems p xs"
| "names_without p (JObj kvs) = names_without_members p kvs"
| "names_without p v = True"
| "names_without_elems p [] = True"
| "names_without_elems p (x # xs) = (names_without p x \<and> names_without_elems p xs)"
| "names_without_members p [] = True"
| "names_without_members p (kv # kvs) =
     (occurrences p (fst kv) = 0 \<and> names_without p (snd kv) \<and> names_without_members p kvs)"

section \<open>A platform and worlds for examples\<close>

text \<open>
  A platform with the joining of paths by a slash, the conversion of strings of digits
  and header values of Latin-1 characters without control characters, and worlds with a
  backup directory and a remote that answers the query for the existing services with
  the given nodes and a create mutation with an identifier, or with status 500 when
  \<open>fail_at\<close> requests came before it.
\<close>

definition example_platform :: platform where
  "example_platform =
     \<lparr>str_pos = (\<lambda>s. s \<noteq> [] \<and> list_all is_digit s \<and> 0 < digits_val s),
      url_ok = (\<lambda>u. take 7 u = ascii ''http://'' \<or> take 8 u = ascii ''https://''),
      header_ok = list_all (\<lambda>c. 0x20 \<le> c \<and> c \<le> 0xFF \<and> c \<noteq> 0x7F \<or> c = 0x09),
      path_join = (\<lambda>d f. d @ ascii ''/'' @ f)\<rparr>"

definition example_args :: "jstring list" where
  "example_args = [ascii ''https://sg.example.com/'', ascii ''secret'', ascii ''backup'']"

definition example_fs :: "jstring \<Rightarrow> jstring \<Rightarrow> fs_entry option" where
  "example_fs services =
     map_of [(ascii ''backup'', Dir),
             (ascii ''backup/site-config.json'', File (ascii ''{}'')),
             (ascii ''backup/external-services.json'', File services)]"

definition example_remote :: "jstring \<Rightarrow> nat option \<Rightarrow> request list \<Rightarrow> request \<Rightarrow> response" where
  \<open>example_remote nodes fail_at hist req =
     (if query req = existing_services_query
      then Reply 200 (ascii ''{"data":{"externalServices":{"nodes":'' @ nodes @ ascii ''}}}'')
      else if Some (length hist) = fail_at then Reply 500 (ascii ''internal error'')
      else Reply 200 (ascii ''{"data":{"addExternalService":{"id":"RXh0OjE="}}}''))\<close>

definition example_world :: "jstring \<Rightarrow> jstring \<Rightarrow> nat option \<Rightarrow> world" where
  "example_world services nodes fail_at =
     \<lparr>fs = example_fs services, can_write = (\<lambda>_. True), can_mkdir = (\<lambda>_. True),
      remote = example_remote nodes fail_at, sent = [],
      now = ascii ''2024-05-01T12:00:00.000Z''\<rparr>"

text \<open>The same world with a remote whose responses are all cut after their headers.\<close>

definition cut_world :: "jstring \<Rightarrow> world" where
  "cut_world services = (example_world services [] None)\<lparr>remote := (\<lambda>hist req. Cut)\<rparr>"

definition two_services :: jstring where
  \<open>two_services = ascii ''[{"id":"1","kind":"GITHUB","displayName":"github","config":"{}"},{"id":"2","kind":"GITLAB","displayName":"gitlab","config":"{}"}]''\<close>

definition two_nodes :: jstring where
  \<open>two_nodes = ascii ''[{"id":"7","displayName":"gitlab","kind":"GITLAB"},{"id":"8","displayName":"github","kind":"GITHUB"}]''\<close>


definition dup_services :: jstring where
  \<open>dup_services = ascii ''[{"kind":"GITHUB","displayName":"github","config":"a"},{"kind":"GITHUB","displayName":"github","config":"b"}]''\<close>

definition example_endpoint :: jstring where
  "example_endpoint = ascii ''https://sg.example.com/.api/graphql''"

definition example_entry :: "string \<Rightarrow> string \<Rightarrow> string \<Rightarrow> string \<Rightarrow> jsv" where
  "example_entry i k d c =
     JObj [(ascii ''id'', JStr (ascii i)), (ascii ''kind'', JStr (ascii k)),
           (ascii ''displayName'', JStr (ascii d)), (ascii ''config'', JStr (ascii c))]"

definition example_node :: "string \<Rightarrow> string \<Rightarrow> string \<Rightarrow> jsv" where
  "example_node i d k =
     JObj [(ascii ''id'', JStr (ascii i)), (ascii ''displayName'', JStr (ascii d)),
           (ascii ''kind'', JStr (ascii k))]"


text \<open>A source instance for the export script: one site configuration with
  identifier 42 and one external service.\<close>

definition source_services_reply :: jstring where
  \<open>source_services_reply = ascii ''{"data":{"externalServices":{"nodes":[{"id":"RXh0OjE=","kind":"GITHUB","displayName":"NEEDS_UPDATING","config":"token: REDACTED"}]}}}''\<close>

definition source_remote :: "request list \<Rightarrow> request \<Rightarrow> response" where
  \<open>source_remote hist req =
     (if query req = site_config_query
      then Reply 200 (ascii ''{"data":{"site":{"configuration":{"id":42,"effectiveContents":"{}"}}}}'')
      else Reply 200 source_services_reply)\<close>

definition source_world :: world where
  "source_world =
     \<lparr>fs = (\<lambda>p. None), can_write = (\<lambda>_. True), can_mkdir = (\<lambda>_. True),
      remote = source_remote, sent = [], now = ascii ''2024-05-01T12:00:00.000Z''\<rparr>"

section \<open>Properties of the transport client\<close>












section \<open>Properties of the import script\<close>

lemma outcome_sent_upd [simp]: "outcome pf (w\<lparr>sent := x\<rparr>) = outcome pf w"
  by (rule ext)+ (simp add: outcome_def)

lemma outcome_fs_upd [simp]: "outcome pf (w\<lparr>fs := x\<rparr>) = outcome pf w"
  by (rule ext)+ (simp add: outcome_def)

lemma executeQuery_eq:
  "executeQuery pf ep tok q v w =
     (if url_ok pf ep \<and> header_ok pf tok
      then (outcome pf w (sent w) \<lparr>endpoint = ep, token = tok, query = q, variables = v\<rparr>,
            w\<lparr>sent := sent w @ [\<lparr>endpoint = ep, token = tok, query = q, variables = v\<rparr>]\<rparr>)
      else (Inl (if url_ok pf ep then InvalidHeader else InvalidUrl), w))"
  by (simp add: executeQuery_def outcome_def Let_def split: response.splits)

lemma strict_eq_JStr [simp]: "strict_eq x (JStr d) = (x = JStr d)"
  by (cases x) auto

lemma name_kind_Some:
  "name_kind v = Some (d, k) \<longleftrightarrow>
     (\<exists>kvs. v = JObj kvs \<and> own_prop kvs (ascii ''displayName'') = JStr d
        \<and> own_prop kvs (ascii ''kind'') = JStr k)"
  by (auto simp: name_kind_def split: jsv.splits)

lemma find_existing_none:
  assumes "\<forall>s\<in>set existing. is_object s" "name_kind e = Some p"
    "Some p \<notin> name_kind ` set existing"
  shows "find_existing existing e = Inr JUndefined"
  using assms
proof (induction existing)
  case Nil
  then show ?case by simp
next
  case (Cons s rest)
  obtain d k where p: "p = (d, k)" by (cases p)
  from Cons.prems obtain skvs where s: "s = JObj skvs" by (auto simp: is_object_def split: jsv.splits)
  from Cons.prems p obtain kvs where e: "e = JObj kvs" "own_prop kvs (ascii ''displayName'') = JStr d"
    "own_prop kvs (ascii ''kind'') = JStr k" by (auto simp: name_kind_Some)
  have "name_kind s \<noteq> Some (d, k)" using Cons.prems p by force
  then have "\<not> (own_prop skvs (ascii ''displayName'') = JStr d \<and> own_prop skvs (ascii ''kind'') = JStr k)"
    using s by (simp add: name_kind_Some)
  moreover have "find_existing rest e = Inr JUndefined" using Cons by auto
  ultimately show ?case using s e by (auto simp del: own_prop.simps)
qed

lemma find_existing_some:
  assumes "\<forall>s\<in>set existing. is_object s" "name_kind e = Some p"
    "Some p \<in> name_kind ` set existing"
  shows "\<exists>s. find_existing existing e = Inr s \<and> truthy s"
  using assms
proof (induction existing)
  case Nil
  then show ?case by simp
next
  case (Cons s rest)
  obtain d k where p: "p = (d, k)" by (cases p)
  from Cons.prems obtain skvs where s: "s = JObj skvs" by (auto simp: is_object_def split: jsv.splits)
  from Cons.prems p obtain kvs where e: "e = JObj kvs" "own_prop kvs (ascii ''displayName'') = JStr d"
    "own_prop kvs (ascii ''kind'') = JStr k" by (auto simp: name_kind_Some)
  show ?case
  proof (cases "name_kind s = Some (d, k)")
    case True
    then show ?thesis using s e by (auto simp: name_kind_Some simp del: own_prop.simps)
  next
    case False
    then have "Some p \<in> name_kind ` set rest" using Cons.prems p by auto
    then have "\<exists>s. find_existing rest e = Inr s \<and> truthy s" using Cons by auto
    moreover have "\<not> (own_prop skvs (ascii ''displayName'') = JStr d \<and> own_prop skvs (ascii ''kind'') = JStr k)"
      using False s by (simp add: name_kind_Some)
    ultimately show ?thesis using s e by (auto simp del: own_prop.simps)
  qed
qed


lemma log_added_ok: "name_kind e \<noteq> None \<Longrightarrow> log_added e = Inr ()"
  by (auto simp: log_added_def name_kind_def split: jsv.splits prod.splits)

lemma add_vars_ok:
  "is_object e \<Longrightarrow> add_service_variables e = Inr (variables (create_request ep tok e))"
  by (auto simp: add_service_variables_def create_request_def is_object_def split: jsv.splits)

lemma name_kind_object: "name_kind e \<noteq> None \<Longrightarrow> is_object e"
  by (auto simp: name_kind_def is_object_def split: jsv.splits)

lemma create_request_eq:
  "is_object e \<Longrightarrow> add_service_variables e = Inr v \<Longrightarrow>
   \<lparr>endpoint = ep, token = tok, query = add_service_mutation, variables = v\<rparr> = create_request ep tok e"
  by (auto simp: add_service_variables_def create_request_def is_object_def split: jsv.splits)

lemma import_loop_all_skipped:
  assumes "\<forall>s\<in>set existing. is_object s"
    and "\<forall>e\<in>set entries. name_kind e \<noteq> None \<and> name_kind e \<in> name_kind ` set existing"
  shows "import_loop pf ep tok (JArr existing) entries c w =
           (Inr (c\<lparr>skipped := skipped c + length entries\<rparr>), w)"
  using assms(2)
proof (induction entries arbitrary: c)
  case Nil
  then show ?case by simp
next
  case (Cons e rest)
  then have "name_kind e \<noteq> None" "name_kind e \<in> name_kind ` set existing" by simp_all
  then obtain p where p: "name_kind e = Some p" "Some p \<in> name_kind ` set existing"
    by (cases "name_kind e") simp_all
  from find_existing_some[OF assms(1) p]
  obtain s where s: "find_existing existing e = Inr s" "truthy s" by blast
  have "import_loop pf ep tok (JArr existing) rest (c\<lparr>skipped := skipped c + 1\<rparr>) w =
          (Inr (c\<lparr>skipped := skipped c + 1 + length rest\<rparr>), w)"
    using Cons.IH[of "c\<lparr>skipped := skipped c + 1\<rparr>"] Cons.prems by simp
  then show ?case using s by simp
qed

lemma import_loop_created:
  assumes "url_ok pf ep \<and> header_ok pf tok"
    and "\<forall>s\<in>set existing. is_object s"
    and "\<forall>e\<in>set entries. name_kind e \<noteq> None"
    and "\<forall>hist req. query req = add_service_mutation \<longrightarrow> \<not> isl (outcome pf w hist req)"
  shows "import_loop pf ep tok (JArr existing) entries c w =
           (Inr \<lparr>added = added c + length (filter (\<lambda>e. name_kind e \<notin> name_kind ` set existing) entries),
                 skipped = skipped c + length (filter (\<lambda>e. name_kind e \<in> name_kind ` set existing) entries)\<rparr>,
            w\<lparr>sent := sent w @ map (create_request ep tok)
                  (filter (\<lambda>e. name_kind e \<notin> name_kind ` set existing) entries)\<rparr>)"
  using assms(3,4)
proof (induction entries arbitrary: c w)
  case Nil
  then show ?case by simp
next
  case (Cons e rest)
  then obtain p where p: "name_kind e = Some p" by auto
  show ?case
  proof (cases "Some p \<in> name_kind ` set existing")
    case True
    from find_existing_some[OF assms(2) p True]
    obtain s where s: "find_existing existing e = Inr s" "truthy s" by blast
    show ?thesis using s p True Cons.IH[of w "c\<lparr>skipped := skipped c + 1\<rparr>"] Cons.prems
      by simp
  next
    case False
    have f: "find_existing existing e = Inr JUndefined"
      by (rule find_existing_none[OF assms(2) p False])
    have obj: "is_object e" using p by (simp add: name_kind_object)
    let ?req = "create_request ep tok e"
    let ?w' = "w\<lparr>sent := sent w @ [?req]\<rparr>"
    have q: "query ?req = add_service_mutation" by (simp add: create_request_def)
    from Cons.prems(2) q obtain d where d: "outcome pf w (sent w) ?req = Inr d"
      by (metis sum.collapse(2))
    have ex: "executeQuery pf ep tok add_service_mutation (variables ?req) w = (Inr d, ?w')"
      using assms(1) d create_request_eq[OF obj add_vars_ok[OF obj, of ep tok], of ep tok]
      by (simp add: executeQuery_eq)
    have ih: "import_loop pf ep tok (JArr existing) rest (c\<lparr>added := added c + 1\<rparr>) ?w' =
       (Inr \<lparr>added = added c + 1 + length (filter (\<lambda>e. name_kind e \<notin> name_kind ` set existing) rest),
             skipped = skipped c + length (filter (\<lambda>e. name_kind e \<in> name_kind ` set existing) rest)\<rparr>,
        ?w'\<lparr>sent := sent ?w' @ map (create_request ep tok)
                  (filter (\<lambda>e. name_kind e \<notin> name_kind ` set existing) rest)\<rparr>)"
      using Cons.IH[of ?w' "c\<lparr>added := added c + 1\<rparr>"] Cons.prems by simp
    show ?thesis
      using f p False ih ex add_vars_ok[OF obj, of ep tok] log_added_ok[of e]
      by simp
  qed
qed


lemma stops_at_failure_sent [simp]:
  "stops_at_failure pf (w\<lparr>sent := x\<rparr>) hist qs b = stops_at_failure pf w hist qs b"
  by (induction qs arbitrary: hist) (auto split: sum.splits)


lemma create_request_eq':
  "add_service_variables e = Inr v \<Longrightarrow>
   \<lparr>endpoint = ep, token = tok, query = add_service_mutation, variables = v\<rparr> = create_request ep tok e"
  by (cases e) (auto simp: add_service_variables_def create_request_def)

lemma import_loop_trace:
  "import_loop pf ep tok ex entries c w = (r, w') \<Longrightarrow>
     \<exists>reqs. w' = w\<lparr>sent := sent w @ reqs\<rparr>
        \<and> (\<forall>q\<in>set reqs. \<exists>e\<in>set entries. q = create_request ep tok e)
        \<and> stops_at_failure pf w (sent w) reqs (error_of r)"
proof (induction entries arbitrary: c w)
  case Nil
  then show ?case by (auto intro: exI[of _ "[]"])
next
  case (Cons e rest)
  show ?case
  proof (cases "find_service ex e")
    case (Inl err)
    then show ?thesis using Cons.prems by (auto intro: exI[of _ "[]"])
  next
    case (Inr found)
    show ?thesis
    proof (cases "truthy found")
      case True
      then have "import_loop pf ep tok ex rest (c\<lparr>skipped := skipped c + 1\<rparr>) w = (r, w')"
        using Cons.prems Inr by simp
      from Cons.IH[OF this] show ?thesis by auto
    next
      case False
      show ?thesis
      proof (cases "add_service_variables e")
        case (Inl err)
        then show ?thesis using Cons.prems Inr False by (auto intro: exI[of _ "[]"])
      next
        case vars: (Inr v)
        let ?req = "create_request ep tok e"
        note rq = create_request_eq'[OF vars, of ep tok]
        show ?thesis
        proof (cases "url_ok pf ep \<and> header_ok pf tok")
          case False
          then show ?thesis using Cons.prems Inr \<open>\<not> truthy found\<close> vars
            by (auto simp: executeQuery_eq intro: exI[of _ "[]"])
        next
          case True
          let ?w1 = "w\<lparr>sent := sent w @ [?req]\<rparr>"
          have ex: "executeQuery pf ep tok add_service_mutation v w = (outcome pf w (sent w) ?req, ?w1)"
            using True rq by (simp add: executeQuery_eq)
          show ?thesis
          proof (cases "outcome pf w (sent w) ?req")
            case (Inl err)
            then have "r = Inl err" "w' = ?w1"
              using Cons.prems Inr \<open>\<not> truthy found\<close> vars ex by auto
            then show ?thesis using Inl by (auto simp: error_of_def intro!: exI[of _ "[?req]"])
          next
            case ok: (Inr d)
            show ?thesis
            proof (cases "log_added e")
              case (Inl err)
              then have "r = Inl err" "w' = ?w1"
                using Cons.prems Inr \<open>\<not> truthy found\<close> vars ex ok by auto
              then show ?thesis using ok by (auto intro!: exI[of _ "[?req]"])
            next
              case (Inr u)
              then have "import_loop pf ep tok ex rest (c\<lparr>added := added c + 1\<rparr>) ?w1 = (r, w')"
                using Cons.prems \<open>find_service ex e = Inr found\<close> \<open>\<not> truthy found\<close> vars ex ok by auto
              from Cons.IH[OF this] obtain reqs where
                reqs: "w' = ?w1\<lparr>sent := sent ?w1 @ reqs\<rparr>"
                  "\<forall>q\<in>set reqs. \<exists>e\<in>set rest. q = create_request ep tok e"
                  "stops_at_failure pf ?w1 (sent ?w1) reqs (error_of r)" by blast
              show ?thesis
                using reqs ok by (auto intro!: exI[of _ "?req # reqs"])
            qed
          qed
        qed
      qed
    qed
  qed
qed


lemma importExternalServices_shape:
  assumes "importExternalServices pf ep tok p w = (r, w')"
  shows "\<exists>reqs. w' = w\<lparr>sent := sent w @ reqs\<rparr>
        \<and> (reqs = [] \<and> isl r \<or>
            (\<exists>muts. reqs = existing_request ep tok # muts
               \<and> (\<forall>q\<in>set muts. \<exists>e. from_bundle w p e \<and> q = create_request ep tok e)))
        \<and> stops_at_failure pf w (sent w) reqs (error_of r)"
proof (cases "readFileSync w p")
  case (Inl e)
  then show ?thesis using assms by (auto simp: importExternalServices_def intro!: exI[of _ "[]"])
next
  case content: (Inr content)
  show ?thesis
  proof (cases "JSON_parse content")
    case PSyntaxError
    then show ?thesis using assms content
      by (auto simp: importExternalServices_def intro!: exI[of _ "[]"])
  next
    case PUnsupported
    then show ?thesis using assms content
      by (auto simp: importExternalServices_def intro!: exI[of _ "[]"])
  next
    case (POk services)
    show ?thesis
    proof (cases "url_ok pf ep \<and> header_ok pf tok")
      case False
      then show ?thesis using assms content POk
        by (auto simp: importExternalServices_def executeQuery_eq intro!: exI[of _ "[]"])
    next
      case True
      let ?q = "existing_request ep tok"
      let ?w1 = "w\<lparr>sent := sent w @ [?q]\<rparr>"
      have ex: "executeQuery pf ep tok existing_services_query (JObj []) w = (outcome pf w (sent w) ?q, ?w1)"
        using True by (simp add: executeQuery_eq existing_request_def)
      show ?thesis
      proof (cases "outcome pf w (sent w) ?q")
        case (Inl err)
        then have "r = Inl err" "w' = ?w1" using assms content POk ex
          by (auto simp: importExternalServices_def)
        then show ?thesis using Inl by (intro exI[of _ "[?q]"]) (simp add: error_of_def)
      next
        case ok: (Inr data)
        define existing where "existing =
          (if truthy (opt_prop (opt_prop data (ascii ''externalServices'')) (ascii ''nodes''))
           then opt_prop (opt_prop data (ascii ''externalServices'')) (ascii ''nodes'') else JArr [])"
        show ?thesis
        proof (cases "to_string (opt_prop existing (ascii ''length''))")
          case (Inl err)
          then have "r = Inl err" "w' = ?w1" using assms content POk ex ok
            by (auto simp: importExternalServices_def existing_def Let_def simp del: opt_prop.simps)
          then show ?thesis using ok by (intro exI[of _ "[?q]"]) simp
        next
          case len: (Inr l)
          show ?thesis
          proof (cases "iterate services")
            case (Inl err)
            then have "r = Inl err" "w' = ?w1" using assms content POk ex ok len
              by (auto simp: importExternalServices_def existing_def Let_def simp del: opt_prop.simps)
            then show ?thesis using ok by (intro exI[of _ "[?q]"]) simp
          next
            case (Inr entries)
            then have "import_loop pf ep tok existing entries \<lparr>added = 0, skipped = 0\<rparr> ?w1 = (r, w')"
              using assms content POk ex ok len
              by (auto simp: importExternalServices_def existing_def Let_def simp del: opt_prop.simps)
            from import_loop_trace[OF this] obtain reqs where
              reqs: "w' = ?w1\<lparr>sent := sent ?w1 @ reqs\<rparr>"
                "\<forall>q\<in>set reqs. \<exists>e\<in>set entries. q = create_request ep tok e"
                "stops_at_failure pf ?w1 (sent ?w1) reqs (error_of r)" by blast
            have "\<forall>q\<in>set reqs. \<exists>e. from_bundle w p e \<and> q = create_request ep tok e"
              using reqs(2) content POk Inr by (auto simp: from_bundle_def)
            then show ?thesis using reqs ok
              by (intro exI[of _ "?q # reqs"]) simp
          qed
        qed
      qed
    qed
  qed
qed


lemma import_summary_text:
  "\<exists>text. JSON_stringify2 (import_summary t b st) = Some text"
  by (simp add: JSON_stringify2_def import_summary_def)

lemma import_main_shape:
  assumes "import_main pf base tok dir p w = (code, w')"
  shows "\<exists>reqs out r.
      JSON_stringify2 (import_summary (now w) base (ascii ''completed'')) = Some out
      \<and> importExternalServices pf (graphql_endpoint base) tok p w = (r, w\<lparr>sent := sent w @ reqs\<rparr>)
      \<and> (w' = w\<lparr>sent := sent w @ reqs\<rparr>
            \<and> (isl r \<or> \<not> can_write w (path_join pf dir (ascii ''import-summary.json'')))
            \<and> code = (case error_of r of Some e \<Rightarrow> exit_status e | None \<Rightarrow> 1)
          \<or> code = 0 \<and> \<not> isl r \<and> can_write w (path_join pf dir (ascii ''import-summary.json''))
            \<and> w' = w\<lparr>sent := sent w @ reqs,
                       fs := (fs w)(path_join pf dir (ascii ''import-summary.json'') \<mapsto> File out)\<rparr>)
      \<and> (reqs = [] \<and> isl r \<or>
            (\<exists>muts. reqs = existing_request (graphql_endpoint base) tok # muts
               \<and> (\<forall>q\<in>set muts. \<exists>e. from_bundle w p e \<and> q = create_request (graphql_endpoint base) tok e)))
      \<and> stops_at_failure pf w (sent w) reqs (error_of r)"
proof -
  obtain r w1 where run: "importExternalServices pf (graphql_endpoint base) tok p w = (r, w1)"
    by (cases "importExternalServices pf (graphql_endpoint base) tok p w")
  from importExternalServices_shape[OF run] obtain reqs where
    reqs: "w1 = w\<lparr>sent := sent w @ reqs\<rparr>"
      "reqs = [] \<and> isl r \<or>
            (\<exists>muts. reqs = existing_request (graphql_endpoint base) tok # muts
               \<and> (\<forall>q\<in>set muts. \<exists>e. from_bundle w p e \<and> q = create_request (graphql_endpoint base) tok e))"
      "stops_at_failure pf w (sent w) reqs (error_of r)" by blast
  obtain out where out: "JSON_stringify2 (import_summary (now w) base (ascii ''completed'')) = Some out"
    using import_summary_text by blast
  have code: "w' = w1 \<and> (isl r \<or> \<not> can_write w (path_join pf dir (ascii ''import-summary.json'')))
         \<and> code = (case error_of r of Some e \<Rightarrow> exit_status e | None \<Rightarrow> 1)
     \<or> code = 0 \<and> \<not> isl r \<and> can_write w (path_join pf dir (ascii ''import-summary.json''))
         \<and> w' = w1\<lparr>fs := (fs w)(path_join pf dir (ascii ''import-summary.json'') \<mapsto> File out)\<rparr>"
    using assms run out reqs(1)
    by (cases r) (auto simp: import_main_def writeFileSync_def error_of_def split: if_splits)
  then show ?thesis using reqs out run
    by (intro exI[of _ reqs] exI[of _ out] exI[of _ r]) auto
qed

lemma import_script_early:
  assumes "length args < 3 \<or> \<not> existsSync w (args ! 2)
     \<or> \<not> existsSync w (path_join pf (args ! 2) (ascii ''site-config.json''))
     \<or> \<not> existsSync w (path_join pf (args ! 2) (ascii ''external-services.json''))"
  shows "import_script pf args w = (1, w)"
  using assms by (auto simp: import_script_def Let_def)

lemma import_script_main:
  assumes "\<not> (length args < 3 \<or> \<not> existsSync w (args ! 2)
     \<or> \<not> existsSync w (path_join pf (args ! 2) (ascii ''site-config.json''))
     \<or> \<not> existsSync w (path_join pf (args ! 2) (ascii ''external-services.json'')))"
  shows "import_script pf args w =
     import_main pf (strip_slash (args ! 0)) (args ! 1) (args ! 2)
       (path_join pf (args ! 2) (ascii ''external-services.json'')) w"
  using assms by (auto simp: import_script_def Let_def)


lemma importExternalServices_unfold:
  assumes "readFileSync w p = Inr content" "JSON_parse content = POk (JArr bundle)"
    "url_ok pf ep \<and> header_ok pf tok"
    "outcome pf w (sent w) (existing_request ep tok) = Inr data"
    "opt_prop (opt_prop data (ascii ''externalServices'')) (ascii ''nodes'') = JArr existing"
  shows "importExternalServices pf ep tok p w =
     import_loop pf ep tok (JArr existing) bundle \<lparr>added = 0, skipped = 0\<rparr>
       (w\<lparr>sent := sent w @ [existing_request ep tok]\<rparr>)"
proof -
  have ex: "executeQuery pf ep tok existing_services_query (JObj []) w =
      (Inr data, w\<lparr>sent := sent w @ [existing_request ep tok]\<rparr>)"
    using assms(3,4) by (simp add: executeQuery_eq existing_request_def)
  show ?thesis
    using assms(1,2,5) ex
    by (simp add: importExternalServices_def Let_def del: opt_prop.simps) simp
qed

text \<open>
  Claim C3. When the external-services file parses to an array of service records and
  the target's answer to the query lists, for every one of them, an existing service
  with the same \<open>displayName\<close> and the same \<open>kind\<close> (compared as strings, character by
  character), \<open>importExternalServices\<close> sends the query and nothing else, and ends with
  \<open>added = 0\<close> and \<open>skipped\<close> equal to the number of records of the file.
\<close>

theorem import_rerun_skips_all:
  assumes "readFileSync w p = Inr content" and "JSON_parse content = POk (JArr bundle)"
    and "url_ok pf ep \<and> header_ok pf tok"
    and "outcome pf w (sent w) (existing_request ep tok) = Inr data"
    and "opt_prop (opt_prop data (ascii ''externalServices'')) (ascii ''nodes'') = JArr existing"
    and "\<forall>s\<in>set existing. is_object s"
    and "\<forall>e\<in>set bundle. name_kind e \<noteq> None \<and> name_kind e \<in> name_kind ` set existing"
  shows "importExternalServices pf ep tok p w =
           (Inr \<lparr>added = 0, skipped = length bundle\<rparr>,
            w\<lparr>sent := sent w @ [existing_request ep tok]\<rparr>)"
  using importExternalServices_unfold[OF assms(1-5)]
    import_loop_all_skipped[OF assms(6,7), of pf ep tok "\<lparr>added = 0, skipped = 0\<rparr>"]
  by simp

text \<open>
  Claim C4. When the target reports no external service and every create mutation
  succeeds, \<open>importExternalServices\<close> ends with \<open>added\<close> equal to the number of records
  of the file and \<open>skipped = 0\<close>, and after the query it has sent one create mutation
  per record, in the order of the file, each with the record's \<open>displayName\<close>, \<open>kind\<close>
  and \<open>config\<close> as its input.
\<close>

theorem import_into_empty_target:
  assumes "readFileSync w p = Inr content" and "JSON_parse content = POk (JArr bundle)"
    and "url_ok pf ep \<and> header_ok pf tok"
    and "outcome pf w (sent w) (existing_request ep tok) = Inr data"
    and "opt_prop (opt_prop data (ascii ''externalServices'')) (ascii ''nodes'') = JArr []"
    and "\<forall>e\<in>set bundle. name_kind e \<noteq> None"
    and "\<forall>hist req. query req = add_service_mutation \<longrightarrow> \<not> isl (outcome pf w hist req)"
  shows "importExternalServices pf ep tok p w =
           (Inr \<lparr>added = length bundle, skipped = 0\<rparr>,
            w\<lparr>sent := sent w @ existing_request ep tok # map (create_request ep tok) bundle\<rparr>)"
proof -
  let ?w1 = "w\<lparr>sent := sent w @ [existing_request ep tok]\<rparr>"
  have succ: "\<forall>hist req. query req = add_service_mutation \<longrightarrow> \<not> isl (outcome pf ?w1 hist req)"
    using assms(7) by simp
  have "\<forall>s\<in>set ([]::jsv list). is_object s" by simp
  from import_loop_created[OF assms(3) this assms(6) succ, where c="\<lparr>added = 0, skipped = 0\<rparr>"]
  show ?thesis
    using importExternalServices_unfold[OF assms(1-5)] assms(6)
    by (simp add: filter_id_conv)
qed

lemma filter_position:
  assumes "i < length xs" "P (xs ! i)"
  shows "length (filter P (take i xs)) < length (filter P xs)
       \<and> filter P xs ! length (filter P (take i xs)) = xs ! i"
proof -
  have "xs = take i xs @ xs ! i # drop (Suc i) xs" using assms(1) by (rule id_take_nth_drop)
  then have "filter P xs = filter P (take i xs) @ xs ! i # filter P (drop (Suc i) xs)"
    using assms(2) by (metis filter.simps(2) filter_append)
  then show ?thesis by (simp add: nth_append)
qed

lemma filter_position_mono:
  assumes "i < j" "j \<le> length xs" "P (xs ! i)"
  shows "length (filter P (take i xs)) < length (filter P (take j xs))"
proof -
  have "i < length (take j xs)" using assms by simp
  from filter_position[OF this, of P] assms show ?thesis by (simp add: min_def)
qed

text \<open>
  Claim C10. The list of existing services is the one answer to the query sent before
  the loop and is not extended by the creations of the loop. So when two records of
  the file, at places \<open>i < j\<close>, have the same name and kind and the target has no
  service with that pair, one run sends a create mutation for both (every create
  succeeding): the log holds the request for record \<open>i\<close> before the one for record \<open>j\<close>.
\<close>

theorem import_creates_both_duplicates:
  assumes "readFileSync w p = Inr content" and "JSON_parse content = POk (JArr bundle)"
    and "url_ok pf ep \<and> header_ok pf tok"
    and "outcome pf w (sent w) (existing_request ep tok) = Inr data"
    and "opt_prop (opt_prop data (ascii ''externalServices'')) (ascii ''nodes'') = JArr existing"
    and "\<forall>s\<in>set existing. is_object s"
    and "\<forall>e\<in>set bundle. name_kind e \<noteq> None"
    and "\<forall>hist req. query req = add_service_mutation \<longrightarrow> \<not> isl (outcome pf w hist req)"
    and "i < j" and "j < length bundle"
    and "name_kind (bundle ! i) = name_kind (bundle ! j)"
    and "name_kind (bundle ! i) \<notin> name_kind ` set existing"
  shows "\<exists>c w' a b. importExternalServices pf ep tok p w = (Inr c, w')
           \<and> 2 \<le> added c
           \<and> length (sent w) < a \<and> a < b \<and> b < length (sent w')
           \<and> sent w' ! a = create_request ep tok (bundle ! i)
           \<and> sent w' ! b = create_request ep tok (bundle ! j)"
proof -
  let ?P = "\<lambda>e. name_kind e \<notin> name_kind ` set existing"
  let ?w1 = "w\<lparr>sent := sent w @ [existing_request ep tok]\<rparr>"
  let ?made = "filter ?P bundle"
  let ?a = "length (filter ?P (take i bundle))"
  let ?b = "length (filter ?P (take j bundle))"
  have succ: "\<forall>hist req. query req = add_service_mutation \<longrightarrow> \<not> isl (outcome pf ?w1 hist req)"
    using assms(8) by simp
  have run: "importExternalServices pf ep tok p w =
      (Inr \<lparr>added = length ?made,
            skipped = length (filter (\<lambda>e. name_kind e \<in> name_kind ` set existing) bundle)\<rparr>,
       w\<lparr>sent := sent w @ existing_request ep tok # map (create_request ep tok) ?made\<rparr>)"
    using importExternalServices_unfold[OF assms(1-5)]
      import_loop_created[OF assms(3) assms(6) assms(7) succ, where c="\<lparr>added = 0, skipped = 0\<rparr>"]
    by simp
  have Pi: "?P (bundle ! i)" using assms(12) .
  have Pj: "?P (bundle ! j)" using assms(11,12) by simp
  have i: "i < length bundle" using assms(9,10) by simp
  from filter_position[OF i, where P="?P"] Pi
  have a: "?a < length ?made" "?made ! ?a = bundle ! i" by simp_all
  from filter_position[OF assms(10), where P="?P"] Pj
  have b: "?b < length ?made" "?made ! ?b = bundle ! j" by simp_all
  have ab: "?a < ?b" using filter_position_mono[where i=i and j=j and xs="bundle" and P="?P"] assms(9,10) Pi by simp
  have two: "2 \<le> length ?made" using ab b(1) by simp
  let ?w' = "w\<lparr>sent := sent w @ existing_request ep tok # map (create_request ep tok) ?made\<rparr>"
  have na: "sent ?w' ! (length (sent w) + 1 + ?a) = create_request ep tok (bundle ! i)"
    using a by (simp add: nth_append)
  have nb: "sent ?w' ! (length (sent w) + 1 + ?b) = create_request ep tok (bundle ! j)"
    using b by (simp add: nth_append)
  show ?thesis
    using run two na nb ab b(1)
    by (intro exI[of _ "\<lparr>added = length ?made,
            skipped = length (filter (\<lambda>e. name_kind e \<in> name_kind ` set existing) bundle)\<rparr>"]
          exI[of _ ?w'] exI[of _ "length (sent w) + 1 + ?a"] exI[of _ "length (sent w) + 1 + ?b"])
       simp
qed


lemma import_script_shape:
  assumes "import_script pf args w = (code, w')"
  shows "\<exists>reqs out err.
      (w' = w\<lparr>sent := sent w @ reqs\<rparr>
          \<and> code = (case err of Some e \<Rightarrow> exit_status e | None \<Rightarrow> 1)
       \<or> code = 0 \<and> err = None
          \<and> JSON_stringify2 (import_summary (now w) (strip_slash (args ! 0)) (ascii ''completed'')) = Some out
          \<and> w' = w\<lparr>sent := sent w @ reqs,
                     fs := (fs w)(path_join pf (args ! 2) (ascii ''import-summary.json'') \<mapsto> File out)\<rparr>)
      \<and> (reqs = [] \<or>
            (\<exists>muts. reqs = existing_request (graphql_endpoint (strip_slash (args ! 0))) (args ! 1) # muts
               \<and> (\<forall>q\<in>set muts. \<exists>e.
                      from_bundle w (path_join pf (args ! 2) (ascii ''external-services.json'')) e
                      \<and> q = create_request (graphql_endpoint (strip_slash (args ! 0))) (args ! 1) e)))
      \<and> stops_at_failure pf w (sent w) reqs err"
proof (cases "length args < 3 \<or> \<not> existsSync w (args ! 2)
     \<or> \<not> existsSync w (path_join pf (args ! 2) (ascii ''site-config.json''))
     \<or> \<not> existsSync w (path_join pf (args ! 2) (ascii ''external-services.json''))")
  case True
  from import_script_early[OF True] assms have "code = 1" "w' = w" by simp_all
  then show ?thesis by (intro exI[of _ "[]"] exI[of _ "[]"] exI[of _ None]) simp
next
  case False
  from import_script_main[OF False] assms
  have "import_main pf (strip_slash (args ! 0)) (args ! 1) (args ! 2)
       (path_join pf (args ! 2) (ascii ''external-services.json'')) w = (code, w')" by simp
  from import_main_shape[OF this] obtain reqs out r where
    m: "JSON_stringify2 (import_summary (now w) (strip_slash (args ! 0)) (ascii ''completed'')) = Some out
      \<and> importExternalServices pf (graphql_endpoint (strip_slash (args ! 0))) (args ! 1)
          (path_join pf (args ! 2) (ascii ''external-services.json'')) w = (r, w\<lparr>sent := sent w @ reqs\<rparr>)
      \<and> (w' = w\<lparr>sent := sent w @ reqs\<rparr>
            \<and> (isl r \<or> \<not> can_write w (path_join pf (args ! 2) (ascii ''import-summary.json'')))
            \<and> code = (case error_of r of Some e \<Rightarrow> exit_status e | None \<Rightarrow> 1)
          \<or> code = 0 \<and> \<not> isl r \<and> can_write w (path_join pf (args ! 2) (ascii ''import-summary.json''))
            \<and> w' = w\<lparr>sent := sent w @ reqs,
                       fs := (fs w)(path_join pf (args ! 2) (ascii ''import-summary.json'') \<mapsto> File out)\<rparr>)
      \<and> (reqs = [] \<and> isl r \<or>
            (\<exists>muts. reqs = existing_request (graphql_endpoint (strip_slash (args ! 0))) (args ! 1) # muts
               \<and> (\<forall>q\<in>set muts. \<exists>e.
                      from_bundle w (path_join pf (args ! 2) (ascii ''external-services.json'')) e
                      \<and> q = create_request (graphql_endpoint (strip_slash (args ! 0))) (args ! 1) e)))
      \<and> stops_at_failure pf w (sent w) reqs (error_of r)"
    by blast
  have "\<not> isl r \<Longrightarrow> error_of r = None" by (cases r) (simp_all add: error_of_def)
  then show ?thesis using m
    by (intro exI[of _ reqs] exI[of _ out] exI[of _ "error_of r"]) auto
qed


text \<open>
  Claim C8. In a run of the import script on texts within the model of \<open>JSON.parse\<close>, the
  summary with status \<open>completed\<close> is written exactly when every step succeeded: the
  arguments and the three paths are there, \<open>importExternalServices\<close> returns, and the
  summary can be written; it is the one file the run writes, and the exit status is 0.
  In every other run the file system is left as it was: no summary is written. Such a
  run ends with exit status 1, except when the call to the remote never settles (the
  response is cut after its headers): then neither the summary write nor the \<open>catch\<close>
  block runs, and the process ends with exit status 0 without a summary.
\<close>

theorem import_summary_iff_completed:
  assumes "import_script pf args w = (code, w')"
    and "within_model w (path_join pf (args ! 2) (ascii ''external-services.json''))"
  shows "(3 \<le> length args \<and> existsSync w (args ! 2)
          \<and> existsSync w (path_join pf (args ! 2) (ascii ''site-config.json''))
          \<and> existsSync w (path_join pf (args ! 2) (ascii ''external-services.json''))
          \<and> \<not> isl (fst (importExternalServices pf (graphql_endpoint (strip_slash (args ! 0))) (args ! 1)
                   (path_join pf (args ! 2) (ascii ''external-services.json'')) w))
          \<and> can_write w (path_join pf (args ! 2) (ascii ''import-summary.json''))
        \<longrightarrow> code = 0
          \<and> (\<exists>out. JSON_stringify2
                   (import_summary (now w) (strip_slash (args ! 0)) (ascii ''completed'')) = Some out
             \<and> fs w' = (fs w)(path_join pf (args ! 2) (ascii ''import-summary.json'') \<mapsto> File out)))
    \<and> (\<not> (3 \<le> length args \<and> existsSync w (args ! 2)
          \<and> existsSync w (path_join pf (args ! 2) (ascii ''site-config.json''))
          \<and> existsSync w (path_join pf (args ! 2) (ascii ''external-services.json''))
          \<and> \<not> isl (fst (importExternalServices pf (graphql_endpoint (strip_slash (args ! 0))) (args ! 1)
                   (path_join pf (args ! 2) (ascii ''external-services.json'')) w))
          \<and> can_write w (path_join pf (args ! 2) (ascii ''import-summary.json'')))
        \<longrightarrow> fs w' = fs w
          \<and> code =
              (if 3 \<le> length args \<and> existsSync w (args ! 2)
                  \<and> existsSync w (path_join pf (args ! 2) (ascii ''site-config.json''))
                  \<and> existsSync w (path_join pf (args ! 2) (ascii ''external-services.json''))
                  \<and> fst (importExternalServices pf (graphql_endpoint (strip_slash (args ! 0))) (args ! 1)
                       (path_join pf (args ! 2) (ascii ''external-services.json'')) w) = Inl Unsettled
               then 0 else 1))"
proof (cases "length args < 3 \<or> \<not> existsSync w (args ! 2)
     \<or> \<not> existsSync w (path_join pf (args ! 2) (ascii ''site-config.json''))
     \<or> \<not> existsSync w (path_join pf (args ! 2) (ascii ''external-services.json''))")
  case True
  from import_script_early[OF True] assms have "code = 1" "w' = w" by simp_all
  then show ?thesis using True by auto
next
  case False
  from import_script_main[OF False] assms
  have "import_main pf (strip_slash (args ! 0)) (args ! 1) (args ! 2)
       (path_join pf (args ! 2) (ascii ''external-services.json'')) w = (code, w')" by simp
  from import_main_shape[OF this] obtain reqs out r where
    m: "JSON_stringify2 (import_summary (now w) (strip_slash (args ! 0)) (ascii ''completed'')) = Some out"
    "importExternalServices pf (graphql_endpoint (strip_slash (args ! 0))) (args ! 1)
        (path_join pf (args ! 2) (ascii ''external-services.json'')) w = (r, w\<lparr>sent := sent w @ reqs\<rparr>)"
    "w' = w\<lparr>sent := sent w @ reqs\<rparr>
            \<and> (isl r \<or> \<not> can_write w (path_join pf (args ! 2) (ascii ''import-summary.json'')))
            \<and> code = (case error_of r of Some e \<Rightarrow> exit_status e | None \<Rightarrow> 1)
          \<or> code = 0 \<and> \<not> isl r \<and> can_write w (path_join pf (args ! 2) (ascii ''import-summary.json''))
            \<and> w' = w\<lparr>sent := sent w @ reqs,
                       fs := (fs w)(path_join pf (args ! 2) (ascii ''import-summary.json'') \<mapsto> File out)\<rparr>"
    by blast
  show ?thesis
  proof (cases r)
    case (Inl e)
    then show ?thesis using m False by (auto simp: error_of_def exit_status_def)
  next
    case (Inr c)
    then show ?thesis using m False by (auto simp: error_of_def)
  qed
qed


lemma executeQuery_fs:
  "executeQuery pf ep tok q v (w\<lparr>fs := f\<rparr>) =
     (fst (executeQuery pf ep tok q v w), (snd (executeQuery pf ep tok q v w))\<lparr>fs := f\<rparr>)"
  by (simp add: executeQuery_eq)

lemma import_loop_fs:
  "import_loop pf ep tok ex entries c (w\<lparr>fs := f\<rparr>) =
     (fst (import_loop pf ep tok ex entries c w), (snd (import_loop pf ep tok ex entries c w))\<lparr>fs := f\<rparr>)"
proof (induction entries arbitrary: c w)
  case Nil
  then show ?case by simp
next
  case (Cons e rest)
  show ?case
    by (simp add: executeQuery_fs Cons.IH split: sum.splits prod.splits)
qed

lemma importExternalServices_fs:
  assumes "readFileSync (w\<lparr>fs := f\<rparr>) p = readFileSync w p"
  shows "importExternalServices pf ep tok p (w\<lparr>fs := f\<rparr>) =
     (fst (importExternalServices pf ep tok p w), (snd (importExternalServices pf ep tok p w))\<lparr>fs := f\<rparr>)"
  using assms
  by (simp add: importExternalServices_def executeQuery_fs import_loop_fs Let_def
      split: sum.splits prod.splits parsed.splits del: opt_prop.simps)

lemma importExternalServices_keeps:
  "importExternalServices pf ep tok p w = (r, w1) \<Longrightarrow>
     can_write w1 = can_write w \<and> now w1 = now w"
  by (drule importExternalServices_shape) auto

lemma import_main_fs:
  assumes "readFileSync (w\<lparr>fs := f\<rparr>) p = readFileSync w p"
  shows "fst (import_main pf b tok d p (w\<lparr>fs := f\<rparr>)) = fst (import_main pf b tok d p w)
       \<and> sent (snd (import_main pf b tok d p (w\<lparr>fs := f\<rparr>))) = sent (snd (import_main pf b tok d p w))"
proof -
  obtain r w1 where run: "importExternalServices pf (graphql_endpoint b) tok p w = (r, w1)"
    by (cases "importExternalServices pf (graphql_endpoint b) tok p w")
  have run2: "importExternalServices pf (graphql_endpoint b) tok p (w\<lparr>fs := f\<rparr>) = (r, w1\<lparr>fs := f\<rparr>)"
    using importExternalServices_fs[OF assms, of pf "graphql_endpoint b" tok] run by simp
  obtain out where out: "JSON_stringify2 (import_summary (now w) b (ascii ''completed'')) = Some out"
    using import_summary_text by blast
  show ?thesis
    using run run2 out importExternalServices_keeps[OF run]
    by (cases r) (simp_all add: import_main_def writeFileSync_def)
qed

text \<open>
  Claim C9. The requests of a run of the import script, on texts within the model of
  \<open>JSON.parse\<close>, are the query for the existing services, followed by create mutations whose inputs are taken from the entries of the
  external-services file. The site-config file is only tested for existence: putting
  anything else at its path changes neither the exit status nor the requests sent.
\<close>

theorem import_never_sends_site_config:
  assumes "import_script pf args w = (code, w')"
    and "within_model w (path_join pf (args ! 2) (ascii ''external-services.json''))"
    and "existsSync w (path_join pf (args ! 2) (ascii ''site-config.json''))"
    and "path_join pf (args ! 2) (ascii ''site-config.json'')
           \<noteq> path_join pf (args ! 2) (ascii ''external-services.json'')"
  shows "(\<exists>reqs. sent w' = sent w @ reqs
            \<and> (reqs = [] \<or>
                (\<exists>muts. reqs = existing_request (graphql_endpoint (strip_slash (args ! 0))) (args ! 1) # muts
                   \<and> (\<forall>q\<in>set muts. \<exists>e.
                          from_bundle w (path_join pf (args ! 2) (ascii ''external-services.json'')) e
                          \<and> q = create_request (graphql_endpoint (strip_slash (args ! 0))) (args ! 1) e))))
       \<and> (\<forall>entry.
             fst (import_script pf args
                    (w\<lparr>fs := (fs w)(path_join pf (args ! 2) (ascii ''site-config.json'') \<mapsto> entry)\<rparr>)) = code
             \<and> sent (snd (import_script pf args
                    (w\<lparr>fs := (fs w)(path_join pf (args ! 2) (ascii ''site-config.json'') \<mapsto> entry)\<rparr>)))
                 = sent w')"
proof -
  let ?site = "path_join pf (args ! 2) (ascii ''site-config.json'')"
  let ?ext = "path_join pf (args ! 2) (ascii ''external-services.json'')"
  have shape: "\<exists>reqs. sent w' = sent w @ reqs
            \<and> (reqs = [] \<or>
                (\<exists>muts. reqs = existing_request (graphql_endpoint (strip_slash (args ! 0))) (args ! 1) # muts
                   \<and> (\<forall>q\<in>set muts. \<exists>e. from_bundle w ?ext e
                          \<and> q = create_request (graphql_endpoint (strip_slash (args ! 0))) (args ! 1) e)))"
    using import_script_shape[OF assms(1)] by fastforce
  have indep: "fst (import_script pf args (w\<lparr>fs := (fs w)(?site \<mapsto> entry)\<rparr>)) = code
       \<and> sent (snd (import_script pf args (w\<lparr>fs := (fs w)(?site \<mapsto> entry)\<rparr>))) = sent w'" for entry
  proof -
    let ?w2 = "w\<lparr>fs := (fs w)(?site \<mapsto> entry)\<rparr>"
    have ex: "existsSync ?w2 x = existsSync w x" for x
      using assms(3) by (simp add: existsSync_def)
    have rd: "readFileSync ?w2 ?ext = readFileSync w ?ext"
      using assms(4) by (simp add: readFileSync_def)
    show ?thesis
    proof (cases "length args < 3 \<or> \<not> existsSync w (args ! 2)
       \<or> \<not> existsSync w ?site \<or> \<not> existsSync w ?ext")
      case True
      then have "length args < 3 \<or> \<not> existsSync ?w2 (args ! 2)
       \<or> \<not> existsSync ?w2 ?site \<or> \<not> existsSync ?w2 ?ext" by (simp add: ex)
      from import_script_early[OF this] import_script_early[OF True] assms(1)
      show ?thesis by simp
    next
      case False
      then have "\<not> (length args < 3 \<or> \<not> existsSync ?w2 (args ! 2)
       \<or> \<not> existsSync ?w2 ?site \<or> \<not> existsSync ?w2 ?ext)" by (simp add: ex)
      then have r2: "import_script pf args ?w2 =
          import_main pf (strip_slash (args ! 0)) (args ! 1) (args ! 2) ?ext ?w2"
        by (rule import_script_main)
      have r1: "import_main pf (strip_slash (args ! 0)) (args ! 1) (args ! 2) ?ext w = (code, w')"
        using import_script_main[OF False] assms(1) by simp
      show ?thesis
        using import_main_fs[OF rd, of pf "strip_slash (args ! 0)" "args ! 1" "args ! 2"]
        unfolding r2 r1 by simp
    qed
  qed
  show ?thesis using shape indep by blast
qed

text \<open>
  Claim C6. When the input directory is missing, or one of the two input files is
  missing, or the external-services file is not valid JSON, the import script ends with
  exit status 1 and leaves the world as it was: no request has been sent.
\<close>

theorem import_fails_before_network:
  assumes "\<not> existsSync w (args ! 2)
     \<or> \<not> existsSync w (path_join pf (args ! 2) (ascii ''site-config.json''))
     \<or> \<not> existsSync w (path_join pf (args ! 2) (ascii ''external-services.json''))
     \<or> (\<exists>c. readFileSync w (path_join pf (args ! 2) (ascii ''external-services.json'')) = Inr c
            \<and> JSON_parse c = PSyntaxError)"
  shows "import_script pf args w = (1, w)"
  using assms
  by (auto simp: import_script_def Let_def import_main_def importExternalServices_def exit_status_def)

subsection \<open>The properties at concrete inputs\<close>

lemma parse_two_services:
  "JSON_parse two_services =
     POk (JArr [example_entry ''1'' ''GITHUB'' ''github'' ''{}'',
                example_entry ''2'' ''GITLAB'' ''gitlab'' ''{}''])"
  by code_simp

lemma read_example_services:
  "readFileSync (example_world services nodes fail_at) (ascii ''backup/external-services.json'') = Inr services"
  by (simp add: readFileSync_def example_world_def example_fs_def ascii_def)

lemma example_url_ok:
  "url_ok example_platform example_endpoint \<and> header_ok example_platform (ascii ''secret'')"
  by code_simp

lemma unparsed_reply: "JSON_parse (ascii ''internal error'') = PSyntaxError"
  by code_simp

lemma parse_created:
  \<open>JSON_parse (ascii ''{"data":{"addExternalService":{"id":"RXh0OjE="}}}'') =
     POk (JObj [(ascii ''data'',
       JObj [(ascii ''addExternalService'', JObj [(ascii ''id'', JStr (ascii ''RXh0OjE=''))])])])\<close>
  by code_simp

lemma example_within_model:
  assumes "JSON_parse services \<noteq> PUnsupported"
    and \<open>JSON_parse (ascii ''{"data":{"externalServices":{"nodes":'' @ nodes @ ascii ''}}}'')
           \<noteq> PUnsupported\<close>
  shows "within_model (example_world services nodes fail_at)
           (path_join example_platform (example_args ! 2) (ascii ''external-services.json''))"
proof -
  have "path_join example_platform (example_args ! 2) (ascii ''external-services.json'')
      = ascii ''backup/external-services.json''"
    by (simp add: example_platform_def example_args_def ascii_def)
  moreover have "fs (example_world services nodes fail_at) (ascii ''backup/external-services.json'')
      = Some (File services)"
    by (simp add: example_world_def example_fs_def ascii_def)
  moreover have "JSON_parse body \<noteq> PUnsupported"
    if "remote (example_world services nodes fail_at) hist req = Reply status body"
    for hist req status body
    using that assms(2) unparsed_reply parse_created
    by (auto simp: example_world_def example_remote_def split: if_splits)
  ultimately show ?thesis using assms(1) by (simp add: within_model_def)
qed


lemma parse_the_two_nodes:
  \<open>JSON_parse (ascii ''{"data":{"externalServices":{"nodes":'' @ two_nodes @ ascii ''}}}'')
     \<noteq> PUnsupported\<close>
  by code_simp

lemma outcome_two_nodes:
  "outcome example_platform (example_world services two_nodes fail_at) hist
       (existing_request example_endpoint tok) =
   Inr (JObj [(ascii ''externalServices'', JObj [(ascii ''nodes'',
          JArr [example_node ''7'' ''gitlab'' ''GITLAB'', example_node ''8'' ''github'' ''GITHUB''])])])"
proof -
  have "on_end example_platform 200
          (ascii ''{\"data\":{\"externalServices\":{\"nodes\":'' @ two_nodes @ ascii ''}}}'') =
        Inr (JObj [(ascii ''externalServices'', JObj [(ascii ''nodes'',
          JArr [example_node ''7'' ''gitlab'' ''GITLAB'', example_node ''8'' ''github'' ''GITHUB''])])])"
    by code_simp
  then show ?thesis
    by (simp add: outcome_def example_world_def example_remote_def existing_request_def)
qed

theorem import_rerun_skips_all_witness:
  "importExternalServices example_platform example_endpoint (ascii ''secret'')
     (ascii ''backup/external-services.json'') (example_world two_services two_nodes None)
   = (Inr \<lparr>added = 0, skipped = 2\<rparr>,
      (example_world two_services two_nodes None)
        \<lparr>sent := [existing_request example_endpoint (ascii ''secret'')]\<rparr>)"
proof -
  let ?existing = "[example_node ''7'' ''gitlab'' ''GITLAB'', example_node ''8'' ''github'' ''GITHUB'']"
  let ?entries = "[example_entry ''1'' ''GITHUB'' ''github'' ''{}'',
                example_entry ''2'' ''GITLAB'' ''gitlab'' ''{}'']"
  have nodes: "opt_prop (opt_prop (JObj [(ascii ''externalServices'', JObj [(ascii ''nodes'',
          JArr ?existing)])]) (ascii ''externalServices'')) (ascii ''nodes'') = JArr ?existing"
    by code_simp
  have objs: "\<forall>s\<in>set ?existing. is_object s" by code_simp
  have matched: "\<forall>e\<in>set ?entries. name_kind e \<noteq> None \<and> name_kind e \<in> name_kind ` set ?existing"
    by code_simp
  have "sent (example_world two_services two_nodes None) = []" by (simp add: example_world_def)
  with import_rerun_skips_all[OF read_example_services[of two_services two_nodes None]
        parse_two_services example_url_ok
        outcome_two_nodes[where tok="ascii ''secret''"] nodes objs matched]
  show ?thesis by simp
qed

lemma outcome_no_nodes:
  "outcome example_platform (example_world services (ascii ''[]'') fail_at) hist
       (existing_request example_endpoint tok) =
   Inr (JObj [(ascii ''externalServices'', JObj [(ascii ''nodes'', JArr [])])])"
proof -
  have "on_end example_platform 200
          (ascii ''{\"data\":{\"externalServices\":{\"nodes\":'' @ ascii ''[]'' @ ascii ''}}}'') =
        Inr (JObj [(ascii ''externalServices'', JObj [(ascii ''nodes'', JArr [])])])"
    by code_simp
  then show ?thesis
    by (simp add: outcome_def example_world_def example_remote_def existing_request_def)
qed

lemma queries_differ: "add_service_mutation \<noteq> existing_services_query"
  by code_simp

lemma on_end_created:
  "on_end example_platform 200 (ascii ''{\"data\":{\"addExternalService\":{\"id\":\"RXh0OjE=\"}}}'') =
     Inr (JObj [(ascii ''addExternalService'', JObj [(ascii ''id'', JStr (ascii ''RXh0OjE=''))])])"
  by code_simp

lemma creates_succeed:
  "\<forall>hist req. query req = add_service_mutation \<longrightarrow>
     \<not> isl (outcome example_platform (example_world services nodes None) hist req)"
  by (simp add: outcome_def example_world_def example_remote_def queries_differ on_end_created)

lemma empty_nodes:
  "opt_prop (opt_prop (JObj [(ascii ''externalServices'', JObj [(ascii ''nodes'', JArr existing)])])
      (ascii ''externalServices'')) (ascii ''nodes'') = JArr existing"
  by (simp add: ascii_def)

theorem import_into_empty_target_witness:
  "importExternalServices example_platform example_endpoint (ascii ''secret'')
     (ascii ''backup/external-services.json'') (example_world two_services (ascii ''[]'') None)
   = (Inr \<lparr>added = 2, skipped = 0\<rparr>,
      (example_world two_services (ascii ''[]'') None)
        \<lparr>sent := [existing_request example_endpoint (ascii ''secret''),
                  create_request example_endpoint (ascii ''secret'')
                    (example_entry ''1'' ''GITHUB'' ''github'' ''{}''),
                  create_request example_endpoint (ascii ''secret'')
                    (example_entry ''2'' ''GITLAB'' ''gitlab'' ''{}'')]\<rparr>)"
proof -
  let ?entries = "[example_entry ''1'' ''GITHUB'' ''github'' ''{}'',
                example_entry ''2'' ''GITLAB'' ''gitlab'' ''{}'']"
  have named: "\<forall>e\<in>set ?entries. name_kind e \<noteq> None" by code_simp
  have "sent (example_world two_services (ascii ''[]'') None) = []" by (simp add: example_world_def)
  with import_into_empty_target[OF read_example_services[of two_services "ascii ''[]''" None]
        parse_two_services example_url_ok
        outcome_no_nodes[where tok="ascii ''secret''"] empty_nodes named creates_succeed]
  show ?thesis by simp
qed

lemma parse_dup_services:
  "JSON_parse dup_services =
     POk (JArr [JObj [(ascii ''kind'', JStr (ascii ''GITHUB'')),
                      (ascii ''displayName'', JStr (ascii ''github'')),
                      (ascii ''config'', JStr (ascii ''a''))],
                JObj [(ascii ''kind'', JStr (ascii ''GITHUB'')),
                      (ascii ''displayName'', JStr (ascii ''github'')),
                      (ascii ''config'', JStr (ascii ''b''))]])"
  by code_simp

theorem import_creates_both_duplicates_witness:
  "\<exists>c w' a b.
     importExternalServices example_platform example_endpoint (ascii ''secret'')
       (ascii ''backup/external-services.json'') (example_world dup_services (ascii ''[]'') None)
       = (Inr c, w')
     \<and> 2 \<le> added c \<and> 0 < a \<and> a < b \<and> b < length (sent w')
     \<and> variables (sent w' ! a) =
          JObj [(ascii ''input'', JObj [(ascii ''displayName'', JStr (ascii ''github'')),
                 (ascii ''kind'', JStr (ascii ''GITHUB'')), (ascii ''config'', JStr (ascii ''a''))])]
     \<and> variables (sent w' ! b) =
          JObj [(ascii ''input'', JObj [(ascii ''displayName'', JStr (ascii ''github'')),
                 (ascii ''kind'', JStr (ascii ''GITHUB'')), (ascii ''config'', JStr (ascii ''b''))])]"
proof -
  let ?e1 = "JObj [(ascii ''kind'', JStr (ascii ''GITHUB'')),
                      (ascii ''displayName'', JStr (ascii ''github'')),
                      (ascii ''config'', JStr (ascii ''a''))]"
  let ?e2 = "JObj [(ascii ''kind'', JStr (ascii ''GITHUB'')),
                      (ascii ''displayName'', JStr (ascii ''github'')),
                      (ascii ''config'', JStr (ascii ''b''))]"
  have named: "\<forall>e\<in>set [?e1, ?e2]. name_kind e \<noteq> None" by code_simp
  have same: "name_kind ([?e1, ?e2] ! 0) = name_kind ([?e1, ?e2] ! 1)" by code_simp
  have absent: "name_kind ([?e1, ?e2] ! 0) \<notin> name_kind ` set []" by simp
  have objs: "\<forall>s\<in>set ([]::jsv list). is_object s" by simp
  have v1: "variables (create_request example_endpoint (ascii ''secret'') ([?e1, ?e2] ! 0)) =
      JObj [(ascii ''input'', JObj [(ascii ''displayName'', JStr (ascii ''github'')),
                 (ascii ''kind'', JStr (ascii ''GITHUB'')), (ascii ''config'', JStr (ascii ''a''))])]"
    by code_simp
  have v2: "variables (create_request example_endpoint (ascii ''secret'') ([?e1, ?e2] ! 1)) =
      JObj [(ascii ''input'', JObj [(ascii ''displayName'', JStr (ascii ''github'')),
                 (ascii ''kind'', JStr (ascii ''GITHUB'')), (ascii ''config'', JStr (ascii ''b''))])]"
    by code_simp
  have s0: "sent (example_world dup_services (ascii ''[]'') None) = []" by (simp add: example_world_def)
  from import_creates_both_duplicates[OF read_example_services[of dup_services "ascii ''[]''" None]
        parse_dup_services example_url_ok
        outcome_no_nodes[where tok="ascii ''secret''"] empty_nodes objs named creates_succeed
        _ _ same absent]
  obtain c w' a b where
    "importExternalServices example_platform example_endpoint (ascii ''secret'')
       (ascii ''backup/external-services.json'') (example_world dup_services (ascii ''[]'') None)
       = (Inr c, w')" "2 \<le> added c" "0 < a" "a < b" "b < length (sent w')"
    "sent w' ! a = create_request example_endpoint (ascii ''secret'') ([?e1, ?e2] ! 0)"
    "sent w' ! b = create_request example_endpoint (ascii ''secret'') ([?e1, ?e2] ! 1)"
    using s0 by auto
  then show ?thesis using v1 v2 by metis
qed

lemma bad_syntax: "JSON_parse (ascii ''[{'') = PSyntaxError"
  by code_simp

theorem import_fails_before_network_witness:
  "import_script example_platform example_args (example_world (ascii ''[{'') (ascii ''[]'') None)
     = (1, example_world (ascii ''[{'') (ascii ''[]'') None)"
proof -
  have "readFileSync (example_world (ascii ''[{'') (ascii ''[]'') None)
          (path_join example_platform (example_args ! 2) (ascii ''external-services.json''))
        = Inr (ascii ''[{'')"
    by (simp add: readFileSync_def example_world_def example_fs_def example_platform_def
        example_args_def ascii_def)
  then show ?thesis
    using bad_syntax by (intro import_fails_before_network) blast
qed




lemma rerun_steps:
  "3 \<le> length example_args
   \<and> existsSync (example_world two_services two_nodes None) (example_args ! 2)
   \<and> existsSync (example_world two_services two_nodes None)
        (path_join example_platform (example_args ! 2) (ascii ''site-config.json''))
   \<and> existsSync (example_world two_services two_nodes None)
        (path_join example_platform (example_args ! 2) (ascii ''external-services.json''))
   \<and> \<not> isl (fst (importExternalServices example_platform
                   (graphql_endpoint (strip_slash (example_args ! 0))) (example_args ! 1)
                   (path_join example_platform (example_args ! 2) (ascii ''external-services.json''))
                   (example_world two_services two_nodes None)))
   \<and> can_write (example_world two_services two_nodes None)
        (path_join example_platform (example_args ! 2) (ascii ''import-summary.json''))"
  by code_simp

lemma cut_steps:
  "3 \<le> length example_args
   \<and> existsSync (cut_world two_services) (example_args ! 2)
   \<and> existsSync (cut_world two_services)
        (path_join example_platform (example_args ! 2) (ascii ''site-config.json''))
   \<and> existsSync (cut_world two_services)
        (path_join example_platform (example_args ! 2) (ascii ''external-services.json''))
   \<and> fst (importExternalServices example_platform
                   (graphql_endpoint (strip_slash (example_args ! 0))) (example_args ! 1)
                   (path_join example_platform (example_args ! 2) (ascii ''external-services.json''))
                   (cut_world two_services)) = Inl Unsettled"
  by code_simp

lemma cut_within_model:
  "within_model (cut_world two_services)
     (path_join example_platform (example_args ! 2) (ascii ''external-services.json''))"
proof -
  have "path_join example_platform (example_args ! 2) (ascii ''external-services.json'')
      = ascii ''backup/external-services.json''"
    by (simp add: example_platform_def example_args_def ascii_def)
  moreover have "fs (cut_world two_services) (ascii ''backup/external-services.json'')
      = Some (File two_services)"
    by (simp add: cut_world_def example_world_def example_fs_def ascii_def)
  moreover have "remote (cut_world two_services) = (\<lambda>hist req. Cut)"
    by (simp add: cut_world_def)
  ultimately show ?thesis by (simp add: within_model_def parse_two_services)
qed

lemma example_summary_text:
  \<open>JSON_stringify2 (import_summary (ascii ''2024-05-01T12:00:00.000Z'')
      (strip_slash (ascii ''https://sg.example.com/'')) (ascii ''completed'')) =
   Some (text_lines
     [''{'',
      ''  "timestamp": "2024-05-01T12:00:00.000Z",'',
      ''  "targetUrl": "https://sg.example.com",'',
      ''  "status": "completed"'',
      ''}''])\<close>
  by code_simp

theorem import_summary_iff_completed_witness:
  \<open>fst (import_script example_platform example_args (example_world two_services two_nodes None)) = 0
   \<and> fs (snd (import_script example_platform example_args (example_world two_services two_nodes None)))
       = (fs (example_world two_services two_nodes None))
           (ascii ''backup/import-summary.json'' \<mapsto> File (text_lines
              [''{'',
               ''  "timestamp": "2024-05-01T12:00:00.000Z",'',
               ''  "targetUrl": "https://sg.example.com",'',
               ''  "status": "completed"'',
               ''}'']))
   \<and> fst (import_script example_platform example_args (cut_world two_services)) = 0
   \<and> fs (snd (import_script example_platform example_args (cut_world two_services)))
       = fs (cut_world two_services)\<close>
proof -
  let ?w = "example_world two_services two_nodes None"
  let ?r = "import_script example_platform example_args ?w"
  let ?c = "import_script example_platform example_args (cut_world two_services)"
  have run: "?r = (fst ?r, snd ?r)" and cut: "?c = (fst ?c, snd ?c)" by simp_all
  have now: "now ?w = ascii ''2024-05-01T12:00:00.000Z''" by (simp add: example_world_def)
  have arg: "example_args ! 0 = ascii ''https://sg.example.com/''" by (simp add: example_args_def)
  have path: "path_join example_platform (example_args ! 2) (ascii ''import-summary.json'')
      = ascii ''backup/import-summary.json''"
    by (simp add: example_platform_def example_args_def ascii_def)
  have "JSON_parse two_services \<noteq> PUnsupported" by (simp add: parse_two_services)
  note model = example_within_model[OF this parse_the_two_nodes, of None]
  from import_summary_iff_completed[OF run model, THEN conjunct1, THEN mp, OF rerun_steps]
  have fin: "fst ?r = 0"
    "fs (snd ?r) = (fs ?w)(ascii ''backup/import-summary.json'' \<mapsto> File (text_lines
              [''{'',
               ''  \"timestamp\": \"2024-05-01T12:00:00.000Z\",'',
               ''  \"targetUrl\": \"https://sg.example.com\",'',
               ''  \"status\": \"completed\"'',
               ''}'']))"
    unfolding now arg path example_summary_text by simp_all
  have "isl (fst (importExternalServices example_platform
                   (graphql_endpoint (strip_slash (example_args ! 0))) (example_args ! 1)
                   (path_join example_platform (example_args ! 2) (ascii ''external-services.json''))
                   (cut_world two_services)))"
    using cut_steps by simp
  with import_summary_iff_completed[OF cut cut_within_model, THEN conjunct2] cut_steps
  have "fst ?c = 0" "fs (snd ?c) = fs (cut_world two_services)" by simp_all
  with fin show ?thesis by simp
qed

theorem import_never_sends_site_config_witness:
  \<open>fst (import_script example_platform example_args
      ((example_world two_services two_nodes None)
         \<lparr>fs := (fs (example_world two_services two_nodes None))
            (path_join example_platform (example_args ! 2) (ascii ''site-config.json'')
               \<mapsto> File (ascii ''{"auth.providers":[]}''))\<rparr>))
   = fst (import_script example_platform example_args (example_world two_services two_nodes None))
   \<and> sent (snd (import_script example_platform example_args
      ((example_world two_services two_nodes None)
         \<lparr>fs := (fs (example_world two_services two_nodes None))
            (path_join example_platform (example_args ! 2) (ascii ''site-config.json'')
               \<mapsto> File (ascii ''{"auth.providers":[]}''))\<rparr>)))
   = sent (snd (import_script example_platform example_args (example_world two_services two_nodes None)))\<close>
proof -
  let ?w = "example_world two_services two_nodes None"
  let ?r = "import_script example_platform example_args ?w"
  have run: "?r = (fst ?r, snd ?r)" by simp
  have there: "existsSync ?w (path_join example_platform (example_args ! 2) (ascii ''site-config.json''))"
    by (simp add: existsSync_def example_world_def example_fs_def example_platform_def
        example_args_def ascii_def)
  have differ: "path_join example_platform (example_args ! 2) (ascii ''site-config.json'')
           \<noteq> path_join example_platform (example_args ! 2) (ascii ''external-services.json'')"
    by (simp add: example_platform_def ascii_def)
  have "JSON_parse two_services \<noteq> PUnsupported" by (simp add: parse_two_services)
  note model = example_within_model[OF this parse_the_two_nodes, of None]
  from import_never_sends_site_config[OF run model there differ]
  show ?thesis by blast
qed

section \<open>The substitution of the sentinel\<close>

lemma REDACTED_chars: "REDACTED = [0x52, 0x45, 0x44, 0x41, 0x43, 0x54, 0x45, 0x44]"
  by (simp add: REDACTED_def ascii_def)

lemma NEEDS_UPDATING_chars:
  "NEEDS_UPDATING = [0x4E, 0x45, 0x45, 0x44, 0x53, 0x5F, 0x55, 0x50, 0x44, 0x41, 0x54, 0x49, 0x4E, 0x47]"
  by (simp add: NEEDS_UPDATING_def ascii_def)

lemma replaceAll_Nil [simp]: "p \<noteq> [] \<Longrightarrow> replaceAll p r [] = []"
  by (subst replaceAll.simps) simp

lemma replaceAll_match:
  "p \<noteq> [] \<Longrightarrow> replaceAll p r (p @ s) = r @ replaceAll p r s"
  by (subst replaceAll.simps) simp

lemma replaceAll_skip:
  "p \<noteq> [] \<Longrightarrow> take (length p) (c # cs) \<noteq> p \<Longrightarrow>
     replaceAll p r (c # cs) = c # replaceAll p r cs"
  by (subst replaceAll.simps) simp

lemma occurrences_skip:
  "p \<noteq> [] \<Longrightarrow> hd p \<notin> set a \<Longrightarrow> occurrences p (a @ t) = occurrences p t"
proof (induction a)
  case Nil
  then show ?case by simp
next
  case (Cons c a)
  then have "take (length p) (c # a @ t) \<noteq> p"
    by (cases p) auto
  then show ?case using Cons by simp
qed

lemma borderlessD:
  "borderless x \<Longrightarrow> 0 < k \<Longrightarrow> k < length x \<Longrightarrow> take k x \<noteq> drop (length x - k) x"
  by (simp add: borderless_def)

lemma replaceAll_copy:
  "p \<noteq> [] \<Longrightarrow> hd p \<notin> set u \<Longrightarrow> replaceAll p r (u @ t) = u @ replaceAll p r t"
proof (induction u)
  case Nil
  then show ?case by simp
next
  case (Cons c u)
  then have "take (length p) (c # u @ t) \<noteq> p" by (cases p) auto
  then show ?case using Cons by (simp add: replaceAll_skip)
qed

lemma replaceAll_take_copied:
  assumes "p \<noteq> []" "r \<noteq> []"
  shows "hd r \<notin> set u \<Longrightarrow> take n (replaceAll p r s) = u \<Longrightarrow> take n s = u"
proof (induction n arbitrary: s u)
  case 0
  then show ?case by simp
next
  case (Suc n)
  show ?case
  proof (cases s)
    case Nil
    then show ?thesis using Suc.prems assms by simp
  next
    case (Cons c cs)
    show ?thesis
    proof (cases "take (length p) (c # cs) = p")
      case True
      then have "c # cs = p @ drop (length p) (c # cs)" by (metis append_take_drop_id)
      then have "replaceAll p r s = r @ replaceAll p r (drop (length p) (c # cs))"
        using replaceAll_match[OF assms(1), of r "drop (length p) (c # cs)"] Cons by simp
      then have "take (Suc n) (replaceAll p r s) = hd r # take n (tl r @ replaceAll p r (drop (length p) (c # cs)))"
        using assms(2) by (cases r) simp_all
      then show ?thesis using Suc.prems by auto
    next
      case False
      then have "replaceAll p r s = c # replaceAll p r cs"
        using Cons assms(1) by (simp add: replaceAll_skip)
      then have "u = c # take n (replaceAll p r cs)" using Suc.prems by simp
      moreover then have "take n cs = take n (replaceAll p r cs)"
        using Suc.IH[of "take n (replaceAll p r cs)" cs] Suc.prems(1) by simp
      ultimately show ?thesis using Cons by simp
    qed
  qed
qed

lemma replaceAll_suffix_copied:
  assumes "p \<noteq> []" "borderless r"
  shows "j \<le> length r \<Longrightarrow> take (length r - j) (replaceAll p r s) = drop j r \<Longrightarrow>
         (j = 0 \<longrightarrow> take (length p) s \<noteq> p) \<Longrightarrow> take (length r - j) s = drop j r"
proof (induction s arbitrary: j)
  case Nil
  then show ?case using assms(1) by simp
next
  case (Cons c cs)
  show ?case
  proof (cases "j = length r")
    case True
    then show ?thesis by simp
  next
    case False
    then have jl: "j < length r" using Cons.prems by simp
    show ?thesis
    proof (cases "take (length p) (c # cs) = p")
      case True
      then have j0: "0 < j" using Cons.prems by auto
      from True have "c # cs = p @ drop (length p) (c # cs)" by (metis append_take_drop_id)
      then have "replaceAll p r (c # cs) = r @ replaceAll p r (drop (length p) (c # cs))"
        using replaceAll_match[OF assms(1), of r "drop (length p) (c # cs)"] by simp
      then have "take (length r - j) r = drop j r" using Cons.prems(2) by simp
      moreover have "take (length r - j) r \<noteq> drop (length r - (length r - j)) r"
        using borderlessD[OF assms(2), of "length r - j"] j0 jl by simp
      ultimately show ?thesis using jl by simp
    next
      case False
      then have out: "replaceAll p r (c # cs) = c # replaceAll p r cs"
        using assms(1) by (simp add: replaceAll_skip)
      have d: "drop j r = r ! j # drop (Suc j) r" using jl by (simp add: Cons_nth_drop_Suc)
      have l: "length r - j = Suc (length r - Suc j)" using jl by simp
      from Cons.prems(2) have "c = r ! j" "take (length r - Suc j) (replaceAll p r cs) = drop (Suc j) r"
        unfolding out d l by simp_all
      moreover from this(2) have "take (length r - Suc j) cs = drop (Suc j) r"
        using Cons.IH[of "Suc j"] jl by simp
      ultimately show ?thesis unfolding d l by simp
    qed
  qed
qed

lemma occurrences_self:
  assumes "r \<noteq> []" "borderless r"
  shows "occurrences r (r @ t) = 1 + occurrences r t"
proof -
  have tail: "j \<le> length r \<Longrightarrow> 0 < j \<Longrightarrow> occurrences r (drop j r @ t) = occurrences r t" for j
  proof (induction "length r - j" arbitrary: j)
    case 0
    then show ?case by simp
  next
    case (Suc n)
    then have jl: "j < length r" by simp
    have d: "drop j r = r ! j # drop (Suc j) r" using jl by (simp add: Cons_nth_drop_Suc)
    have "take (length r) (drop j r @ t) \<noteq> r"
    proof
      assume eq: "take (length r) (drop j r @ t) = r"
      have "take (length r - j) (take (length r) (drop j r @ t)) = drop j r"
        by (simp add: min_def)
      then have "take (length r - j) r = drop j r" by (subst (asm) eq)
      moreover have "take (length r - j) r \<noteq> drop (length r - (length r - j)) r"
        using borderlessD[OF assms(2), of "length r - j"] Suc.prems jl by simp
      ultimately show False using jl by simp
    qed
    moreover have "occurrences r (drop (Suc j) r @ t) = occurrences r t"
      using Suc.hyps(1)[of "Suc j"] Suc.hyps(2) jl by simp
    ultimately show ?case unfolding d by simp
  qed
  obtain c cs where r: "r = c # cs" using assms(1) by (cases r) auto
  have "occurrences r (r @ t) = 1 + occurrences r (drop 1 r @ t)"
    unfolding r by simp
  then show ?thesis using tail[of 1] assms(1) by (cases r) simp_all
qed

lemma replaceAll_no_new_match:
  assumes "p \<noteq> []" "r \<noteq> []" "hd r \<notin> set p" "take (length p) (c # cs) \<noteq> p"
  shows "take (length p) (c # replaceAll p r cs) \<noteq> p"
proof
  assume eq: "take (length p) (c # replaceAll p r cs) = p"
  obtain a q where p: "p = a # q" using assms(1) by (cases p) auto
  from eq p have c: "c = a" and t: "take (length q) (replaceAll p r cs) = q" by simp_all
  have "hd r \<notin> set q" using assms(3) p by simp
  from replaceAll_take_copied[OF assms(1,2) this t] have "take (length q) cs = q" .
  then have "take (length p) (c # cs) = p" using c p by simp
  then show False using assms(4) by simp
qed

lemma replaceAll_head_kept:
  assumes "p \<noteq> []" "r \<noteq> []" "hd p \<notin> set r" "borderless r"
    "take (length p) (c # cs) \<noteq> p"
  shows "take (length r) (c # replaceAll p r cs) = r \<longleftrightarrow> take (length r) (c # cs) = r"
proof
  assume "take (length r) (c # replaceAll p r cs) = r"
  then have "take (length r - 0) (replaceAll p r (c # cs)) = drop 0 r"
    using assms(1,5) by (simp add: replaceAll_skip)
  from replaceAll_suffix_copied[OF assms(1,4) _ this] assms(5)
  show "take (length r) (c # cs) = r" by simp
next
  assume eq: "take (length r) (c # cs) = r"
  then have "c # cs = r @ drop (length r) (c # cs)" by (metis append_take_drop_id)
  then have "replaceAll p r (c # cs) = r @ replaceAll p r (drop (length r) (c # cs))"
    using replaceAll_copy[OF assms(1,3), of r "drop (length r) (c # cs)"] by simp
  then have "c # replaceAll p r cs = r @ replaceAll p r (drop (length r) (c # cs))"
    using assms(1,5) by (simp add: replaceAll_skip)
  then show "take (length r) (c # replaceAll p r cs) = r" by simp
qed

text \<open>
  The two counts for a pattern and a replacement that cannot overlap themselves or
  each other.
\<close>

lemma replaceAll_counts:
  assumes "p \<noteq> []" "r \<noteq> []" "hd p \<notin> set r" "hd r \<notin> set p" "borderless p" "borderless r"
  shows "occurrences p (replaceAll p r s) = 0
       \<and> occurrences r (replaceAll p r s) = occurrences p s + occurrences r s"
proof (induction s rule: length_induct)
  case (1 s)
  show ?case
  proof (cases s)
    case Nil
    then show ?thesis using assms(1,2) by simp
  next
    case (Cons c cs)
    show ?thesis
    proof (cases "take (length p) (c # cs) = p")
      case True
      define t where "t = drop (length p) (c # cs)"
      have s: "s = p @ t" using True Cons unfolding t_def by (metis append_take_drop_id)
      have "length t < length s" using s assms(1) by simp
      with 1 have ih: "occurrences p (replaceAll p r t) = 0"
        "occurrences r (replaceAll p r t) = occurrences p t + occurrences r t" by simp_all
      have out: "replaceAll p r s = r @ replaceAll p r t"
        unfolding s by (rule replaceAll_match[OF assms(1)])
      have "occurrences p (r @ replaceAll p r t) = occurrences p (replaceAll p r t)"
        by (rule occurrences_skip[OF assms(1,3)])
      moreover have "occurrences r (r @ replaceAll p r t) = 1 + occurrences r (replaceAll p r t)"
        by (rule occurrences_self[OF assms(2,6)])
      moreover have "occurrences p (p @ t) = 1 + occurrences p t"
        by (rule occurrences_self[OF assms(1,5)])
      moreover have "occurrences r (p @ t) = occurrences r t"
        by (rule occurrences_skip[OF assms(2,4)])
      ultimately show ?thesis using ih unfolding out unfolding s by simp
    next
      case False
      have "length cs < length s" using Cons by simp
      with 1 have ih: "occurrences p (replaceAll p r cs) = 0"
        "occurrences r (replaceAll p r cs) = occurrences p cs + occurrences r cs" by simp_all
      have out: "replaceAll p r (c # cs) = c # replaceAll p r cs"
        using False assms(1) by (simp add: replaceAll_skip)
      have a: "take (length p) (c # replaceAll p r cs) \<noteq> p"
        by (rule replaceAll_no_new_match[OF assms(1,2,4) False])
      have b: "take (length r) (c # replaceAll p r cs) = r \<longleftrightarrow> take (length r) (c # cs) = r"
        by (rule replaceAll_head_kept[OF assms(1,2,3,6) False])
      show ?thesis using ih a b False unfolding Cons out by simp
    qed
  qed
qed

lemma sentinels_apart:
  "REDACTED \<noteq> []" "NEEDS_UPDATING \<noteq> []"
  "hd REDACTED \<notin> set NEEDS_UPDATING" "hd NEEDS_UPDATING \<notin> set REDACTED"
  by (simp_all add: REDACTED_chars NEEDS_UPDATING_chars)

lemma sentinels_borderless: "borderless REDACTED" "borderless NEEDS_UPDATING"
  by code_simp+

section \<open>Properties of the export script\<close>

text \<open>
  \<open>exportSiteConfig\<close> returns \<open>config.id\<close>, where \<open>config\<close> is the \<open>effectiveContents\<close>
  string it has just written: a string has no property \<open>id\<close>, so every run that returns
  returns \<open>undefined\<close>.
\<close>

lemma exportSiteConfig_undefined:
  "exportSiteConfig pf ep tok dir w = (Inr v, w') \<Longrightarrow> v = JUndefined"
proof -
  have ne: "ascii ''id'' \<noteq> ascii ''length''" by (simp add: ascii_def)
  assume "exportSiteConfig pf ep tok dir w = (Inr v, w')"
  then show ?thesis
    using ne
    by (auto simp: exportSiteConfig_def write_value_def Let_def
        split: prod.splits sum.splits if_splits jsv.splits simp del: opt_prop.simps)
qed

text \<open>
  Claim C1 at a concrete source. The remote answers the query with the identifier 42;
  \<open>exportSiteConfig\<close> returns \<open>undefined\<close>, the run ends with exit status 0, and the
  summary it writes has no \<open>siteConfigId\<close> field, since \<open>JSON.stringify\<close> leaves out a
  property whose value is \<open>undefined\<close>.
\<close>

theorem export_site_config_id_lost:
  \<open>outcome example_platform source_world []
      \<lparr>endpoint = example_endpoint, token = ascii ''secret'', query = site_config_query,
       variables = JObj []\<rparr>
     = Inr (JObj [(ascii ''site'', JObj [(ascii ''configuration'',
          JObj [(ascii ''id'', JNum 42), (ascii ''effectiveContents'', JStr (ascii ''{}''))])])])
   \<and> fst (exportSiteConfig example_platform example_endpoint (ascii ''secret'') (ascii ''backup'')
          source_world) = Inr JUndefined
   \<and> (case export_script example_platform example_args source_world of
         (code, w') \<Rightarrow>
           code = 0
           \<and> fs w' (ascii ''backup/export-summary.json'')
             = Some (File (text_lines
                 [''{'',
                  ''  "timestamp": "2024-05-01T12:00:00.000Z",'',
                  ''  "sourcegraphUrl": "https://sg.example.com",'',
                  ''  "externalServicesCount": 1'',
                  ''}''])))\<close>
  by code_simp


end
